theory Spec2Isabelle
  imports
    Complex_Main
    "HOL-Library.Char_ord"
    "HOL-Library.List_Lexorder"
    "HOL-Library.AList"
    "HOL-Library.Sublist"
begin

section \<open>Exceptions\<close>

text \<open>
  The exception classes the pipeline raises or filters on.  \<open>Exception\<close> is the root;
  \<open>RateLimitError\<close>, \<open>ParseError\<close> and \<open>ValidationError\<close> derive from
  \<open>ScrapingError\<close> (\<^verbatim>\<open>retry_logic.py\<close>, lines 223-237); \<open>ClientError\<close> stands for
  \<^verbatim>\<open>aiohttp.ClientError\<close> and \<open>TimeoutError\<close> for \<^verbatim>\<open>asyncio.TimeoutError\<close>.
\<close>

datatype exc_class =
    Exception | ClientError | TimeoutError | ScrapingError | RateLimitError
  | ParseError | ValidationError | RetryError | ValueError | KeyError | OverflowError

fun issubclass :: "exc_class \<Rightarrow> exc_class \<Rightarrow> bool" where
  "issubclass c Exception = True"
| "issubclass c ScrapingError =
     (c = ScrapingError \<or> c = RateLimitError \<or> c = ParseError \<or> c = ValidationError)"
| "issubclass c d = (c = d)"

text \<open>
  An exception value, by the place that raises it; the arguments are the values the
  source interpolates into the message.
  \<^item> \<open>Raised c m\<close>: an exception of class \<open>c\<close> raised by a library or by a wrapped operation;
  \<^item> \<open>CircuitOpen t\<close>: \<^verbatim>\<open>Exception(f"Circuit breaker is OPEN. Last failure: {t}")\<close>;
  \<^item> \<open>RetryExhausted n last\<close>: \<^verbatim>\<open>RetryError(...) from last_exception\<close> after \<open>n\<close> attempts;
  \<^item> \<open>RateLimited url\<close>: \<^verbatim>\<open>RateLimitError(f"Rate limited on {url}")\<close>;
  \<^item> \<open>ScrapeFailed url e\<close>: \<^verbatim>\<open>ScrapingError(f"Failed to scrape {url}: {e}")\<close>.
\<close>

datatype exn =
    Raised exc_class string
  | CircuitOpen "real option"
  | RetryExhausted int "exn option"
  | RateLimited string
  | ScrapeFailed string exn

fun class_of :: "exn \<Rightarrow> exc_class" where
  "class_of (Raised c m) = c"
| "class_of (CircuitOpen t) = Exception"
| "class_of (RetryExhausted n cause) = RetryError"
| "class_of (RateLimited url) = RateLimitError"
| "class_of (ScrapeFailed url e) = ScrapingError"

definition isinstance :: "exn \<Rightarrow> exc_class list \<Rightarrow> bool" where
  "isinstance e cs = list_ex (issubclass (class_of e)) cs"

section \<open>CircuitBreaker (retry\_logic.py)\<close>

datatype breaker_state = CLOSED | OPEN | HALF_OPEN

record circuit_breaker =
  failure_threshold :: int
  timeout :: real
  expected_exception :: "exc_class list"
  failure_count :: int
  last_failure_time :: "real option"
  state :: breaker_state

text \<open>\<^verbatim>\<open>CircuitBreaker.__init__\<close>.  Times are seconds, as real numbers.\<close>

definition CircuitBreaker :: "int \<Rightarrow> real \<Rightarrow> exc_class list \<Rightarrow> circuit_breaker" where
  "CircuitBreaker threshold tmo expected =
     \<lparr>failure_threshold = threshold, timeout = tmo, expected_exception = expected,
      failure_count = 0, last_failure_time = None, state = CLOSED\<rparr>"

definition should_try_reset :: "circuit_breaker \<Rightarrow> real \<Rightarrow> bool" where
  "should_try_reset cb now =
     (case last_failure_time cb of
        None \<Rightarrow> True
      | Some t \<Rightarrow> now - t \<ge> timeout cb)"

definition on_success :: "circuit_breaker \<Rightarrow> circuit_breaker" where
  "on_success cb = cb\<lparr>failure_count := 0, state := CLOSED, last_failure_time := None\<rparr>"

definition on_failure :: "circuit_breaker \<Rightarrow> real \<Rightarrow> circuit_breaker" where
  "on_failure cb now =
     (let cb1 = cb\<lparr>failure_count := failure_count cb + 1, last_failure_time := Some now\<rparr>
      in if failure_count cb1 \<ge> failure_threshold cb1 then cb1\<lparr>state := OPEN\<rparr> else cb1)"

text \<open>
  The wrapper \<^verbatim>\<open>CircuitBreaker.__call__\<close> (the sync and the async wrapper have the same
  body).  The state is the breaker together with the rest of the world \<open>'w\<close>; \<open>clock\<close>
  reads \<^verbatim>\<open>time.time()\<close> off the world; the wrapped function may fail (\<open>Inl\<close>) and, like
  any Python code holding the object, may read the breaker.  An exception outside
  \<open>expected_exception\<close> passes through and leaves the breaker as the function left it.
  The warning that \<^verbatim>\<open>_on_failure\<close> logs when it opens the circuit is not modelled.
\<close>

definition breaker_call ::
  "('w \<Rightarrow> real) \<Rightarrow> (circuit_breaker \<times> 'w \<Rightarrow> (exn + 'a) \<times> circuit_breaker \<times> 'w)
     \<Rightarrow> circuit_breaker \<times> 'w \<Rightarrow> (exn + 'a) \<times> circuit_breaker \<times> 'w" where
  "breaker_call clock func = (\<lambda>(cb, w).
     if state cb = OPEN \<and> \<not> should_try_reset cb (clock w)
     then (Inl (CircuitOpen (last_failure_time cb)), cb, w)
     else
       (let cb1 = (if state cb = OPEN then cb\<lparr>state := HALF_OPEN, failure_count := 0\<rparr> else cb)
        in case func (cb1, w) of
             (Inr result, cb2, w2) \<Rightarrow> (Inr result, on_success cb2, w2)
           | (Inl e, cb2, w2) \<Rightarrow>
               if isinstance e (expected_exception cb2)
               then (Inl e, on_failure cb2 (clock w2), w2)
               else (Inl e, cb2, w2)))"

text \<open>A sequence of calls through one breaker, each with its own wrapped function.\<close>

fun run_calls ::
  "('w \<Rightarrow> real) \<Rightarrow> (circuit_breaker \<times> 'w \<Rightarrow> (exn + 'a) \<times> circuit_breaker \<times> 'w) list
     \<Rightarrow> circuit_breaker \<times> 'w \<Rightarrow> circuit_breaker \<times> 'w" where
  "run_calls clock [] s = s"
| "run_calls clock (f # fs) s = run_calls clock fs (snd (breaker_call clock f s))"

text \<open>
  A wrapped function that raises \<open>e\<close> after changing the world by \<open>g\<close> (time passes,
  requests are sent), and one that returns \<open>v\<close>.
\<close>

definition raising ::
  "exn \<times> ('w \<Rightarrow> 'w) \<Rightarrow> circuit_breaker \<times> 'w \<Rightarrow> (exn + 'a) \<times> circuit_breaker \<times> 'w" where
  "raising = (\<lambda>(e, g) (cb, w). (Inl e, cb, g w))"

definition returning ::
  "'a \<times> ('w \<Rightarrow> 'w) \<Rightarrow> circuit_breaker \<times> 'w \<Rightarrow> (exn + 'a) \<times> circuit_breaker \<times> 'w" where
  "returning = (\<lambda>(v, g) (cb, w). (Inr v, cb, g w))"

text \<open>
  Observation of a wrapped function: the world is extended by the list of breaker values
  the function saw, one entry per invocation.
\<close>

record 'w probe =
  inner :: 'w
  seen :: "circuit_breaker list"

definition observed ::
  "(circuit_breaker \<times> 'w \<Rightarrow> (exn + 'a) \<times> circuit_breaker \<times> 'w)
     \<Rightarrow> circuit_breaker \<times> 'w probe \<Rightarrow> (exn + 'a) \<times> circuit_breaker \<times> 'w probe" where
  "observed func = (\<lambda>(cb, p).
     case func (cb, inner p) of
       (r, cb', w') \<Rightarrow> (r, cb', p\<lparr>inner := w', seen := seen p @ [cb]\<rparr>))"

section \<open>with\_retry (retry\_logic.py)\<close>

text \<open>The decorator's arguments, with the defaults of the source in \<open>default_policy\<close>.\<close>

record retry_policy =
  max_attempts :: int
  backoff_factor :: real
  jitter :: bool
  initial_delay :: real
  max_delay :: real
  exceptions :: "exc_class list"
  reraise_exceptions :: "exc_class list option"

definition default_policy :: retry_policy where
  "default_policy =
     \<lparr>max_attempts = 3, backoff_factor = 2, jitter = True, initial_delay = 1,
      max_delay = 60, exceptions = [Exception], reraise_exceptions = None\<rparr>"

text \<open>
  The body of \<^verbatim>\<open>for attempt in range(max_attempts)\<close>, by recursion on the attempts left.
  \<open>sleep\<close> is \<^verbatim>\<open>asyncio.sleep\<close> (\<^verbatim>\<open>time.sleep\<close> in the sync wrapper) and \<open>random\<close> is
  \<^verbatim>\<open>random.random()\<close>, both acting on the world; \<open>delay\<close> and \<open>cause\<close> are the loop's
  variables \<^verbatim>\<open>delay\<close> and \<^verbatim>\<open>last_exception\<close>.  The \<^verbatim>\<open>break\<close> on the last attempt leaves the
  loop for the final \<^verbatim>\<open>raise RetryError\<close>.  The sync and the async wrapper have the same
  body; the warnings they log are not modelled.
\<close>

fun retry_loop ::
  "retry_policy \<Rightarrow> (real \<Rightarrow> 'w \<Rightarrow> 'w) \<Rightarrow> ('w \<Rightarrow> real \<times> 'w) \<Rightarrow> ('w \<Rightarrow> (exn + 'a) \<times> 'w)
     \<Rightarrow> int list \<Rightarrow> real \<Rightarrow> exn option \<Rightarrow> 'w \<Rightarrow> (exn + 'a) \<times> 'w" where
  "retry_loop p sleep random func [] delay cause w =
     (Inl (RetryExhausted (max_attempts p) cause), w)"
| "retry_loop p sleep random func (attempt # rest) delay cause w =
     (case func w of
        (Inr result, w1) \<Rightarrow> (Inr result, w1)
      | (Inl e, w1) \<Rightarrow>
          if (case reraise_exceptions p of None \<Rightarrow> False | Some cs \<Rightarrow> cs \<noteq> [] \<and> isinstance e cs)
          then (Inl e, w1)
          else if \<not> isinstance e (exceptions p) then (Inl e, w1)
          else if attempt = max_attempts p - 1
          then (Inl (RetryExhausted (max_attempts p) (Some e)), w1)
          else
            (let (actual_delay, w2) =
                   (if jitter p
                    then (case random w1 of (r, w') \<Rightarrow> (delay * (0.5 + r), w'))
                    else (delay, w1));
                 actual_delay = min actual_delay (max_delay p)
             in retry_loop p sleep random func rest (delay * backoff_factor p) (Some e)
                  (sleep actual_delay w2)))"

definition with_retry ::
  "retry_policy \<Rightarrow> (real \<Rightarrow> 'w \<Rightarrow> 'w) \<Rightarrow> ('w \<Rightarrow> real \<times> 'w) \<Rightarrow> ('w \<Rightarrow> (exn + 'a) \<times> 'w)
     \<Rightarrow> 'w \<Rightarrow> (exn + 'a) \<times> 'w" where
  "with_retry p sleep random func w =
     retry_loop p sleep random func (map int [0..<nat (max_attempts p)]) (initial_delay p) None w"

text \<open>
  Metering: the world is extended by the number of invocations of the wrapped function and
  by the list of durations passed to \<open>sleep\<close>, in order.
\<close>

record 'w meter =
  world :: 'w
  calls :: nat
  slept :: "real list"

definition metered_func :: "('w \<Rightarrow> (exn + 'a) \<times> 'w) \<Rightarrow> 'w meter \<Rightarrow> (exn + 'a) \<times> 'w meter" where
  "metered_func func m =
     (case func (world m) of (r, w') \<Rightarrow> (r, m\<lparr>world := w', calls := Suc (calls m)\<rparr>))"

definition metered_sleep :: "(real \<Rightarrow> 'w \<Rightarrow> 'w) \<Rightarrow> real \<Rightarrow> 'w meter \<Rightarrow> 'w meter" where
  "metered_sleep sleep d m = m\<lparr>world := sleep d (world m), slept := slept m @ [d]\<rparr>"

definition metered_random :: "('w \<Rightarrow> real \<times> 'w) \<Rightarrow> 'w meter \<Rightarrow> real \<times> 'w meter" where
  "metered_random random m = (case random (world m) of (r, w') \<Rightarrow> (r, m\<lparr>world := w'\<rparr>))"

section \<open>Python values, dictionaries and datetimes\<close>

text \<open>
  The values that records and rows hold.  A dictionary is an association list in
  insertion order with distinct keys: \<open>dict_set\<close> (\<^verbatim>\<open>d[k] = v\<close>) replaces the value of an
  existing key in place and appends a new key.  Equality of values is structural.
\<close>

datatype pyval =
    PNone
  | PBool bool
  | PInt int
  | PFloat real
  | PStr string
  | PList "pyval list"
  | PDict "(string \<times> pyval) list"

type_synonym pydict = "(string \<times> pyval) list"

fun truthy :: "pyval \<Rightarrow> bool" where
  "truthy PNone = False"
| "truthy (PBool b) = b"
| "truthy (PInt i) = (i \<noteq> 0)"
| "truthy (PFloat x) = (x \<noteq> 0)"
| "truthy (PStr s) = (s \<noteq> [])"
| "truthy (PList xs) = (xs \<noteq> [])"
| "truthy (PDict kvs) = (kvs \<noteq> [])"

text \<open>\<^verbatim>\<open>a or b\<close>\<close>

definition py_or :: "pyval \<Rightarrow> pyval \<Rightarrow> pyval" where
  "py_or a b = (if truthy a then a else b)"

text \<open>\<^verbatim>\<open>d.get(k)\<close>, \<^verbatim>\<open>d.get(k, default)\<close>, \<^verbatim>\<open>d[k]\<close> and \<^verbatim>\<open>d[k] = v\<close>\<close>

definition dict_get :: "pydict \<Rightarrow> string \<Rightarrow> pyval" where
  "dict_get d k = (case map_of d k of None \<Rightarrow> PNone | Some v \<Rightarrow> v)"

definition dict_get_default :: "pydict \<Rightarrow> string \<Rightarrow> pyval \<Rightarrow> pyval" where
  "dict_get_default d k dflt = (case map_of d k of None \<Rightarrow> dflt | Some v \<Rightarrow> v)"

definition dict_index :: "pydict \<Rightarrow> string \<Rightarrow> exn + pyval" where
  "dict_index d k = (case map_of d k of None \<Rightarrow> Inl (Raised KeyError k) | Some v \<Rightarrow> Inr v)"

definition dict_set :: "pydict \<Rightarrow> string \<Rightarrow> pyval \<Rightarrow> pydict" where
  "dict_set d k v = AList.update k v d"

text \<open>\<^verbatim>\<open>d.update(e)\<close>: every item of \<open>e\<close>, in order, is stored into \<open>d\<close>.\<close>

definition dict_update :: "pydict \<Rightarrow> pydict \<Rightarrow> pydict" where
  "dict_update d e = foldl (\<lambda>acc kv. dict_set acc (fst kv) (snd kv)) d e"

text \<open>
  \<^verbatim>\<open>datetime\<close> (always UTC here).  The constructor checks every field and raises
  \<^verbatim>\<open>ValueError\<close> for one out of range.  \<^verbatim>\<open>replace\<close> is the C function of CPython: before
  anything is checked, each keyword argument is converted to a C \<^verbatim>\<open>int\<close>, and a value that
  does not fit raises \<^verbatim>\<open>OverflowError\<close>, which is not a \<^verbatim>\<open>ValueError\<close>.
\<close>

record datetime =
  year :: int
  month :: int
  day :: int
  hour :: int
  minute :: int
  second :: int
  microsecond :: int

definition is_leap :: "int \<Rightarrow> bool" where
  "is_leap y = (y mod 4 = 0 \<and> (y mod 100 \<noteq> 0 \<or> y mod 400 = 0))"

definition days_in_month :: "int \<Rightarrow> int \<Rightarrow> int" where
  "days_in_month y m =
     (if m = 2 then (if is_leap y then 29 else 28)
      else if m = 4 \<or> m = 6 \<or> m = 9 \<or> m = 11 then 30 else 31)"

definition check_fields :: "datetime \<Rightarrow> exn + datetime" where
  "check_fields d =
     (if \<not> (1 \<le> year d \<and> year d \<le> 9999) then Inl (Raised ValueError ''year is out of range'')
      else if \<not> (1 \<le> month d \<and> month d \<le> 12) then Inl (Raised ValueError ''month must be in 1..12'')
      else if \<not> (1 \<le> day d \<and> day d \<le> days_in_month (year d) (month d))
        then Inl (Raised ValueError ''day is out of range for month'')
      else if \<not> (0 \<le> hour d \<and> hour d \<le> 23) then Inl (Raised ValueError ''hour must be in 0..23'')
      else if \<not> (0 \<le> minute d \<and> minute d \<le> 59)
        then Inl (Raised ValueError ''minute must be in 0..59'')
      else if \<not> (0 \<le> second d \<and> second d \<le> 59)
        then Inl (Raised ValueError ''second must be in 0..59'')
      else if \<not> (0 \<le> microsecond d \<and> microsecond d \<le> 999999)
        then Inl (Raised ValueError ''microsecond must be in 0..999999'')
      else Inr d)"

text \<open>The keyword arguments of \<^verbatim>\<open>replace\<close>; \<open>None\<close> keeps the field.\<close>

record replacement =
  new_day :: "int option"
  new_hour :: "int option"
  new_minute :: "int option"
  new_second :: "int option"
  new_microsecond :: "int option"

definition keep :: replacement where
  "keep = \<lparr>new_day = None, new_hour = None, new_minute = None, new_second = None,
           new_microsecond = None\<rparr>"

definition c_int :: "int \<Rightarrow> exn + int" where
  "c_int v =
     (if v < - (2 ^ 63) \<or> 2 ^ 63 - 1 < v
      then Inl (Raised OverflowError ''Python int too large to convert to C long'')
      else if v < - (2 ^ 31) then Inl (Raised OverflowError ''signed integer is less than minimum'')
      else if 2 ^ 31 - 1 < v
      then Inl (Raised OverflowError ''signed integer is greater than maximum'')
      else Inr v)"

text \<open>One keyword argument: the value converted, or the field's own value when it is left out.\<close>

definition keyword_arg :: "int option \<Rightarrow> int \<Rightarrow> exn + int" where
  "keyword_arg given current = (case given of None \<Rightarrow> Inr current | Some v \<Rightarrow> c_int v)"

definition replace_fields :: "datetime \<Rightarrow> replacement \<Rightarrow> exn + datetime" where
  "replace_fields d r =
     (case keyword_arg (new_day r) (day d) of Inl e \<Rightarrow> Inl e | Inr dd \<Rightarrow>
      case keyword_arg (new_hour r) (hour d) of Inl e \<Rightarrow> Inl e | Inr hh \<Rightarrow>
      case keyword_arg (new_minute r) (minute d) of Inl e \<Rightarrow> Inl e | Inr mm \<Rightarrow>
      case keyword_arg (new_second r) (second d) of Inl e \<Rightarrow> Inl e | Inr ss \<Rightarrow>
      case keyword_arg (new_microsecond r) (microsecond d) of Inl e \<Rightarrow> Inl e | Inr us \<Rightarrow>
        check_fields (d\<lparr>day := dd, hour := hh, minute := mm, second := ss, microsecond := us\<rparr>))"

text \<open>\<^verbatim>\<open>isoformat()\<close> of a UTC datetime: the fraction is left out when it is zero.\<close>

definition digit :: "int \<Rightarrow> char" where
  "digit n = ''0123456789'' ! nat (n mod 10)"

definition pad2 :: "int \<Rightarrow> string" where
  "pad2 n = [digit (n div 10), digit n]"

definition pad4 :: "int \<Rightarrow> string" where
  "pad4 n = [digit (n div 1000), digit (n div 100), digit (n div 10), digit n]"

definition pad6 :: "int \<Rightarrow> string" where
  "pad6 n = [digit (n div 100000), digit (n div 10000), digit (n div 1000),
             digit (n div 100), digit (n div 10), digit n]"

definition isoformat :: "datetime \<Rightarrow> string" where
  "isoformat d =
     pad4 (year d) @ ''-'' @ pad2 (month d) @ ''-'' @ pad2 (day d) @ ''T''
       @ pad2 (hour d) @ '':'' @ pad2 (minute d) @ '':'' @ pad2 (second d)
       @ (if microsecond d = 0 then [] else ''.'' @ pad6 (microsecond d))
       @ ''+00:00''"

section \<open>The persistent store and the upsert protocol (supabase\_client.py)\<close>

text \<open>
  Log records: level, message text, and the values the source interpolates.  Functions
  return the records they emit; nothing reads the log.
\<close>

datatype level = DEBUG | INFO | WARNING | ERROR

datatype log_arg = AStr string | AInt int | AExn exn | AVal pyval

datatype log_entry = Log level string "log_arg list"

text \<open>
  The store behind the Supabase client: tables of rows by name, the next serial \<open>id\<close>,
  and counters of the requests sent and of the clock readings taken.  What the program
  cannot control is in \<open>store_env\<close>: the value of the \<open>n\<close>-th reading of
  \<^verbatim>\<open>datetime.now(timezone.utc)\<close>, whether the store is unavailable for the \<open>n\<close>-th request,
  and which writes it rejects (a constraint violation).  A failed request raises.
\<close>

record database =
  tables :: "string \<Rightarrow> pydict list"
  next_id :: int
  requests :: nat
  clock_reads :: nat

record store_env =
  now_utc :: "nat \<Rightarrow> datetime"
  unavailable :: "nat \<Rightarrow> bool"
  rejects :: "string \<Rightarrow> pydict \<Rightarrow> bool"

definition utc_now :: "store_env \<Rightarrow> database \<Rightarrow> datetime \<times> database" where
  "utc_now env db = (now_utc env (clock_reads db), db\<lparr>clock_reads := Suc (clock_reads db)\<rparr>)"

definition utc_now_iso :: "store_env \<Rightarrow> database \<Rightarrow> string \<times> database" where
  "utc_now_iso env db = (case utc_now env db of (d, db') \<Rightarrow> (isoformat d, db'))"

text \<open>\<^verbatim>\<open>table(t).select('*').eq(k1, v1).eq(k2, v2).execute()\<close>\<close>

definition db_select ::
  "store_env \<Rightarrow> string \<Rightarrow> (string \<times> pyval) list \<Rightarrow> database \<Rightarrow> (exn + pydict list) \<times> database" where
  "db_select env t conds db =
     (let db1 = db\<lparr>requests := Suc (requests db)\<rparr>
      in if unavailable env (requests db) then (Inl (Raised Exception ''store unavailable''), db1)
         else (Inr (filter (\<lambda>r. list_all (\<lambda>kv. dict_get r (fst kv) = snd kv) conds) (tables db t)),
               db1))"

text \<open>\<^verbatim>\<open>table(t).update(data).eq('id', rid).execute()\<close>: the rows written are returned.\<close>

definition db_update ::
  "store_env \<Rightarrow> string \<Rightarrow> pydict \<Rightarrow> pyval \<Rightarrow> database \<Rightarrow> (exn + pydict list) \<times> database" where
  "db_update env t data rid db =
     (let db1 = db\<lparr>requests := Suc (requests db)\<rparr>
      in if unavailable env (requests db) then (Inl (Raised Exception ''store unavailable''), db1)
         else if rejects env t data then (Inl (Raised Exception ''constraint violation''), db1)
         else
           (let rows = map (\<lambda>r. if dict_get r ''id'' = rid then dict_update r data else r)
                         (tables db t)
            in (Inr (filter (\<lambda>r. dict_get r ''id'' = rid) rows),
                db1\<lparr>tables := (tables db)(t := rows)\<rparr>)))"

text \<open>\<^verbatim>\<open>table(t).insert(data).execute()\<close>: a row without \<open>id\<close> gets the next serial one.\<close>

definition db_insert ::
  "store_env \<Rightarrow> string \<Rightarrow> pydict \<Rightarrow> database \<Rightarrow> (exn + pydict list) \<times> database" where
  "db_insert env t data db =
     (let db1 = db\<lparr>requests := Suc (requests db)\<rparr>
      in if unavailable env (requests db) then (Inl (Raised Exception ''store unavailable''), db1)
         else if rejects env t data then (Inl (Raised Exception ''constraint violation''), db1)
         else
           (let row = (if map_of data ''id'' = None
                       then dict_set data ''id'' (PInt (next_id db)) else data)
            in (Inr [row],
                db1\<lparr>tables := (tables db)(t := tables db t @ [row]),
                    next_id := next_id db + 1\<rparr>)))"

text \<open>
  \<^verbatim>\<open>record_company_change\<close> and \<^verbatim>\<open>record_member_change\<close>: the same body on the change
  table \<open>ct\<close> with the key column \<open>idcol\<close>.  The diff holds every key of the new row whose
  old value differs; \<^verbatim>\<open>json.dumps\<close> of the diff is kept as the dictionary itself.  Any
  exception is caught, logged, and answered with \<^verbatim>\<open>False\<close>.
\<close>

definition field_changes :: "pydict \<Rightarrow> pydict \<Rightarrow> pydict" where
  "field_changes old_data new_data =
     map (\<lambda>kv. (fst kv, PDict [(''old'', dict_get old_data (fst kv)), (''new'', snd kv)]))
       (filter (\<lambda>kv. dict_get old_data (fst kv) \<noteq> snd kv) new_data)"

definition record_change ::
  "store_env \<Rightarrow> string \<Rightarrow> string \<Rightarrow> pyval \<Rightarrow> pydict \<Rightarrow> pydict \<Rightarrow> database
     \<Rightarrow> bool \<times> database \<times> log_entry list" where
  "record_change env ct idcol rid old_data new_data db =
     (let changes = field_changes old_data new_data
      in if changes \<noteq> [] then
           (case utc_now_iso env db of (ts, db1) \<Rightarrow>
              (case db_insert env ct
                      [(idcol, rid),
                       (''changes'', PDict changes),
                       (''previous_hash'', dict_get old_data ''content_hash''),
                       (''new_hash'', dict_get new_data ''content_hash''),
                       (''changed_at'', PStr ts)] db1 of
                 (Inl e, db2) \<Rightarrow> (False, db2, [Log ERROR ''Error recording change'' [AExn e]])
               | (Inr rows, db2) \<Rightarrow>
                   (True, db2,
                    [Log INFO ''Recorded changes'' [AVal rid, AVal (PList (map (PStr \<circ> fst) changes))]])))
         else (True, db, []))"

text \<open>
  \<^verbatim>\<open>upsert_portfolio_company\<close> and \<^verbatim>\<open>upsert_team_member\<close> are the same text up to the
  table names; \<open>upsert_record\<close> is that text, for the table \<open>t\<close>, the change table \<open>ct\<close> and
  its key column \<open>idcol\<close>.  \<open>upsert_try\<close> is the body of the \<^verbatim>\<open>try\<close>; the handler logs the
  exception and raises it again.  The result is the stored row, or \<^verbatim>\<open>None\<close> when the
  store answered with no row.  The source stores \<open>site_id\<close> and the timestamps into the
  caller's dictionary; here the dictionary is a value and the caller's copy is not
  changed, which no function below reads again.
\<close>

definition upsert_try ::
  "store_env \<Rightarrow> string \<Rightarrow> string \<Rightarrow> string \<Rightarrow> int \<Rightarrow> pydict \<Rightarrow> database
     \<Rightarrow> (exn + pyval) \<times> database \<times> log_entry list" where
  "upsert_try env t ct idcol site_id data db =
     (let company_data = dict_set data ''site_id'' (PInt site_id)
      in case dict_index company_data ''name'' of
           Inl e \<Rightarrow> (Inl e, db, [])
         | Inr name \<Rightarrow>
       (case db_select env t [(''site_id'', PInt site_id), (''name'', name)] db of
           (Inl e, db1) \<Rightarrow> (Inl e, db1, [])
         | (Inr (existing_record # others), db1) \<Rightarrow>
             (let old_hash = dict_get existing_record ''content_hash'';
                  new_hash = dict_get company_data ''content_hash''
              in case utc_now_iso env db1 of (t1, db2) \<Rightarrow>
                 case utc_now_iso env db2 of (t2, db3) \<Rightarrow>
                 (let company_data = dict_set (dict_set company_data ''updated_at'' (PStr t1))
                                       ''last_seen_at'' (PStr t2)
                  in case dict_index existing_record ''id'' of
                       Inl e \<Rightarrow> (Inl e, db3, [])
                     | Inr rid \<Rightarrow>
                   (case db_update env t company_data rid db3 of
                       (Inl e, db4) \<Rightarrow> (Inl e, db4, [])
                     | (Inr [], db4) \<Rightarrow> (Inr PNone, db4, [])
                     | (Inr (updated_record # rest), db4) \<Rightarrow>
                         if truthy old_hash \<and> truthy new_hash \<and> old_hash \<noteq> new_hash
                         then
                           (case dict_index updated_record ''id'' of
                              Inl e \<Rightarrow> (Inl e, db4, [])
                            | Inr uid \<Rightarrow>
                                (case record_change env ct idcol uid existing_record
                                        updated_record db4 of
                                   (ok, db5, logs) \<Rightarrow>
                                     (Inr (PDict updated_record), db5,
                                      logs @ [Log DEBUG ''Updated'' [AVal name]])))
                         else (Inr (PDict updated_record), db4,
                               [Log DEBUG ''Updated'' [AVal name]]))))
         | (Inr [], db1) \<Rightarrow>
             (case utc_now_iso env db1 of (t1, db2) \<Rightarrow>
              case utc_now_iso env db2 of (t2, db3) \<Rightarrow>
              case utc_now_iso env db3 of (t3, db4) \<Rightarrow>
              (let company_data =
                     dict_set (dict_set (dict_set company_data ''created_at'' (PStr t1))
                                  ''first_seen_at'' (PStr t2))
                       ''last_seen_at'' (PStr t3)
               in case db_insert env t company_data db4 of
                    (Inl e, db5) \<Rightarrow> (Inl e, db5, [])
                  | (Inr [], db5) \<Rightarrow> (Inr PNone, db5, [])
                  | (Inr (new_record # rest), db5) \<Rightarrow>
                      (Inr (PDict new_record), db5, [Log INFO ''Created new'' [AVal name]])))))"

definition upsert_record ::
  "store_env \<Rightarrow> string \<Rightarrow> string \<Rightarrow> string \<Rightarrow> int \<Rightarrow> pydict \<Rightarrow> database
     \<Rightarrow> (exn + pyval) \<times> database \<times> log_entry list" where
  "upsert_record env t ct idcol site_id data db =
     (case upsert_try env t ct idcol site_id data db of
        (Inl e, db', logs) \<Rightarrow> (Inl e, db', logs @ [Log ERROR ''Error upserting'' [AStr t, AExn e]])
      | (Inr v, db', logs) \<Rightarrow> (Inr v, db', logs))"

definition upsert_portfolio_company ::
  "store_env \<Rightarrow> int \<Rightarrow> pydict \<Rightarrow> database \<Rightarrow> (exn + pyval) \<times> database \<times> log_entry list" where
  "upsert_portfolio_company env =
     upsert_record env ''portfolio_companies'' ''company_changes'' ''company_id''"

definition upsert_team_member ::
  "store_env \<Rightarrow> int \<Rightarrow> pydict \<Rightarrow> database \<Rightarrow> (exn + pyval) \<times> database \<times> log_entry list" where
  "upsert_team_member env =
     upsert_record env ''team_members'' ''member_changes'' ''member_id''"

text \<open>
  \<^verbatim>\<open>asyncio.gather(*tasks, return_exceptions=True)\<close>.  The upsert coroutines never
  suspend (the store client is synchronous, and a coroutine awaited directly runs inline),
  so every task runs to its end before the next one starts, in list order; an exception
  becomes that task's result.
\<close>

fun gather ::
  "('x \<Rightarrow> database \<Rightarrow> (exn + pyval) \<times> database \<times> log_entry list) \<Rightarrow> 'x list \<Rightarrow> database
     \<Rightarrow> (exn + pyval) list \<times> database \<times> log_entry list" where
  "gather up [] db = ([], db, [])"
| "gather up (x # xs) db =
     (case up x db of (r, db1, l1) \<Rightarrow>
        (case gather up xs db1 of (rs, db2, l2) \<Rightarrow> (r # rs, db2, l1 @ l2)))"

text \<open>
  The same pass, record by record: the result of each upsert and the log records it
  emitted, in list order.
\<close>

fun trace ::
  "('x \<Rightarrow> database \<Rightarrow> (exn + pyval) \<times> database \<times> log_entry list) \<Rightarrow> 'x list \<Rightarrow> database
     \<Rightarrow> ((exn + pyval) \<times> log_entry list) list" where
  "trace up [] db = []"
| "trace up (x # xs) db = (case up x db of (r, db1, l1) \<Rightarrow> (r, l1) # trace up xs db1)"

text \<open>
  \<^verbatim>\<open>for j, result in enumerate(results)\<close>: the number of results counted as successes, and
  the error logged for each exception, with the record's index \<open>i + j\<close>.
\<close>

fun count_results :: "string \<Rightarrow> nat \<Rightarrow> nat \<Rightarrow> (exn + pyval) list \<Rightarrow> nat \<times> log_entry list" where
  "count_results what i j [] = (0, [])"
| "count_results what i j (Inl e # rs) =
     (case count_results what i (Suc j) rs of
        (n, logs) \<Rightarrow> (n, Log ERROR ''Error processing'' [AStr what, AInt (int (i + j)), AExn e] # logs))"
| "count_results what i j (Inr v # rs) =
     (case count_results what i (Suc j) rs of
        (n, logs) \<Rightarrow> (if truthy v then (Suc n, logs) else (n, logs)))"

text \<open>
  What the counting loop takes for a success, and the error records it owes to a list of
  results whose first element has index \<open>k\<close>.
\<close>

fun succeeded :: "exn + pyval \<Rightarrow> bool" where
  "succeeded (Inl e) = False"
| "succeeded (Inr v) = truthy v"

fun failure_logs :: "string \<Rightarrow> nat \<Rightarrow> (exn + pyval) list \<Rightarrow> log_entry list" where
  "failure_logs what k [] = []"
| "failure_logs what k (Inl e # rs) =
     Log ERROR ''Error processing'' [AStr what, AInt (int k), AExn e] # failure_logs what (Suc k) rs"
| "failure_logs what k (Inr v # rs) = failure_logs what (Suc k) rs"

text \<open>\<^verbatim>\<open>range(0, n, 50)\<close> and the slice \<^verbatim>\<open>xs[i:i + 50]\<close>\<close>

definition batch_size :: nat where
  "batch_size = 50"

definition batch_starts :: "nat \<Rightarrow> nat list" where
  "batch_starts n = map (\<lambda>b. b * batch_size) [0..<(n + (batch_size - 1)) div batch_size]"

definition batch_at :: "'x list \<Rightarrow> nat \<Rightarrow> 'x list" where
  "batch_at xs i = take batch_size (drop i xs)"

fun batch_loop ::
  "('x \<Rightarrow> database \<Rightarrow> (exn + pyval) \<times> database \<times> log_entry list) \<Rightarrow> string \<Rightarrow> 'x list
     \<Rightarrow> nat list \<Rightarrow> database \<Rightarrow> nat \<times> database \<times> log_entry list" where
  "batch_loop up what xs [] db = (0, db, [])"
| "batch_loop up what xs (i # starts) db =
     (case gather up (batch_at xs i) db of (results, db1, l1) \<Rightarrow>
        (case count_results what i 0 results of (n, l2) \<Rightarrow>
           (case batch_loop up what xs starts db1 of
              (m, db2, l3) \<Rightarrow> (n + m, db2, l1 @ l2 @ l3))))"

text \<open>
  The body shared by \<^verbatim>\<open>upsert_companies_with_change_tracking\<close> and
  \<^verbatim>\<open>upsert_team_members_with_change_tracking\<close>, for the per-record upsert \<open>up\<close>.
\<close>

definition upsert_batches ::
  "('x \<Rightarrow> database \<Rightarrow> (exn + pyval) \<times> database \<times> log_entry list) \<Rightarrow> string \<Rightarrow> 'x list
     \<Rightarrow> database \<Rightarrow> nat \<times> database \<times> log_entry list" where
  "upsert_batches up what xs db =
     (case batch_loop up what xs (batch_starts (length xs)) db of
        (success_count, db', logs) \<Rightarrow>
          (success_count, db',
           logs @ [Log INFO ''Successfully processed''
                     [AInt (int success_count), AInt (int (length xs)), AStr what]]))"

definition upsert_companies_with_change_tracking ::
  "store_env \<Rightarrow> int \<Rightarrow> pydict list \<Rightarrow> database \<Rightarrow> nat \<times> database \<times> log_entry list" where
  "upsert_companies_with_change_tracking env site_id companies =
     upsert_batches (upsert_portfolio_company env site_id) ''company'' companies"

definition upsert_team_members_with_change_tracking ::
  "store_env \<Rightarrow> int \<Rightarrow> pydict list \<Rightarrow> database \<Rightarrow> nat \<times> database \<times> log_entry list" where
  "upsert_team_members_with_change_tracking env site_id members =
     upsert_batches (upsert_team_member env site_id) ''member'' members"

text \<open>
  \<^verbatim>\<open>get_recent_changes\<close>.  The two \<^verbatim>\<open>replace\<close> calls stand before the \<^verbatim>\<open>try\<close>, so their
  exception leaves the function; an exception of the query is caught and answered with
  the empty list.  The query keeps the rows with \<open>changed_at\<close> at or after the cutoff,
  newest first, at most \<open>limit\<close> of them.
\<close>

definition changed_at_of :: "pydict \<Rightarrow> string" where
  "changed_at_of r = (case dict_get r ''changed_at'' of PStr s \<Rightarrow> s | _ \<Rightarrow> [])"

definition db_select_since ::
  "store_env \<Rightarrow> string \<Rightarrow> string \<Rightarrow> int \<Rightarrow> database \<Rightarrow> (exn + pydict list) \<times> database" where
  "db_select_since env t cutoff limit db =
     (let db1 = db\<lparr>requests := Suc (requests db)\<rparr>
      in if unavailable env (requests db) then (Inl (Raised Exception ''store unavailable''), db1)
         else (Inr (take (nat limit)
                      (rev (sort_key changed_at_of
                         (filter (\<lambda>r. cutoff \<le> changed_at_of r) (tables db t))))),
               db1))"

definition get_recent_changes ::
  "store_env \<Rightarrow> string \<Rightarrow> int \<Rightarrow> int \<Rightarrow> database
     \<Rightarrow> (exn + pydict list) \<times> database \<times> log_entry list" where
  "get_recent_changes env table hours limit db =
     (case utc_now env db of (now, db0) \<Rightarrow>
      case replace_fields now
             (keep\<lparr>new_hour := Some 0, new_minute := Some 0, new_second := Some 0,
                   new_microsecond := Some 0\<rparr>) of
        Inl e \<Rightarrow> (Inl e, db0, [])
      | Inr cutoff_time \<Rightarrow>
      (case replace_fields cutoff_time (keep\<lparr>new_hour := Some (hour cutoff_time - hours)\<rparr>) of
        Inl e \<Rightarrow> (Inl e, db0, [])
      | Inr cutoff_time \<Rightarrow>
          (case db_select_since env (table @ ''_changes'') (isoformat cutoff_time) limit db0 of
             (Inl e, db1) \<Rightarrow>
               (Inr [], db1, [Log ERROR ''Error getting recent changes'' [AStr table, AExn e]])
           | (Inr rows, db1) \<Rightarrow> (Inr rows, db1, []))))"

section \<open>The cleaner's records and their content hash (data\_cleaner.py)\<close>

text \<open>
  The field normalisers of \<^verbatim>\<open>DataCleaner\<close> are regular-expression and URL heuristics; the
  record builders below take them, and the string functions of the Python library they
  call, as given functions.  A normaliser that raises ends the cleaning before any hash
  is computed, so the builders are modelled where the normalisers return.
\<close>

record normalizers =
  clean_text :: "pyval \<Rightarrow> int option \<Rightarrow> pyval"
  standardize_company_name :: "pyval \<Rightarrow> pyval"
  standardize_sector :: "pyval \<Rightarrow> pyval"
  standardize_title :: "pyval \<Rightarrow> pyval"
  parse_name :: "pyval \<Rightarrow> pyval \<times> pyval"
  extract_name_and_title :: "pyval \<Rightarrow> pydict"
  normalize_url :: "pyval \<Rightarrow> pyval"
  validate_linkedin_url :: "pyval \<Rightarrow> pyval"
  parse_funding_amount :: "pyval \<Rightarrow> pyval \<times> pyval"
  standardize_funding_stage :: "pyval \<Rightarrow> pyval"
  extract_location_from_summary :: "pyval \<Rightarrow> pyval \<times> pyval"
  str_lower :: "string \<Rightarrow> string"
  str_strip :: "string \<Rightarrow> string"
  str_of :: "pyval \<Rightarrow> string"

text \<open>
  \<^verbatim>\<open>calculate_content_hash\<close>: \<^verbatim>\<open>hashlib.md5(str(sorted(data.items())).encode()).hexdigest()\<close>.
  The items are sorted by key (the keys of a dictionary are distinct, so the values never
  decide); \<open>render\<close> is \<^verbatim>\<open>str\<close> of the sorted item list and \<open>md5_hexdigest\<close> the digest of
  its encoding, both library functions.
\<close>

record hashing =
  render :: "(string \<times> pyval) list \<Rightarrow> string"
  md5_hexdigest :: "string \<Rightarrow> string"

definition sorted_items :: "pydict \<Rightarrow> (string \<times> pyval) list" where
  "sorted_items data = sort_key fst data"

definition calculate_content_hash :: "hashing \<Rightarrow> pydict \<Rightarrow> string" where
  "calculate_content_hash H data = md5_hexdigest H (render H (sorted_items data))"

text \<open>
  \<^verbatim>\<open>clean_portfolio_company\<close>.  \<open>company_fields\<close> is the dictionary \<^verbatim>\<open>cleaned\<close> as it stands
  when the last assignment, of \<^verbatim>\<open>content_hash\<close>, reads it; \<open>now\<close> is
  \<^verbatim>\<open>datetime.now(timezone.utc)\<close> and \<open>base_url\<close> the cleaner's \<^verbatim>\<open>self.base_url\<close>.
\<close>

definition company_fields :: "normalizers \<Rightarrow> pyval \<Rightarrow> datetime \<Rightarrow> pydict \<Rightarrow> pydict" where
  "company_fields N base_url now raw_data =
     (let cleaned = [];
          cleaned = dict_set cleaned ''name''
                      (standardize_company_name N (dict_get_default raw_data ''name'' (PStr [])));
          cleaned = dict_set cleaned ''original_name'' (dict_get_default raw_data ''name'' (PStr []));
          cleaned = dict_set cleaned ''sector''
                      (standardize_sector N
                         (py_or (dict_get raw_data ''sector'') (dict_get raw_data ''industry'')));
          funding_text = py_or (dict_get raw_data ''funding'')
                           (dict_get raw_data ''funding_description'');
          cleaned = (if truthy funding_text
                     then (case parse_funding_amount N funding_text of
                             (amount, currency) \<Rightarrow>
                               dict_set (dict_set (dict_set cleaned ''funding_amount'' amount)
                                           ''funding_currency'' currency)
                                 ''funding_description'' funding_text)
                     else cleaned);
          cleaned = dict_set cleaned ''funding_stage''
                      (standardize_funding_stage N
                         (py_or (dict_get raw_data ''round_type'') (dict_get raw_data ''stage'')));
          cleaned = dict_set cleaned ''description''
                      (clean_text N (dict_get raw_data ''description'') (Some 500));
          cleaned = dict_set cleaned ''website''
                      (normalize_url N
                         (py_or (dict_get raw_data ''website'') (dict_get raw_data ''url'')));
          cleaned = dict_set cleaned ''logo_url''
                      (normalize_url N
                         (py_or (dict_get raw_data ''logo'') (dict_get raw_data ''logo_url'')));
          location = dict_get raw_data ''location'';
          location = (if \<not> truthy location \<and> truthy (dict_get cleaned ''description'')
                      then fst (extract_location_from_summary N (dict_get cleaned ''description''))
                      else location);
          cleaned = dict_set cleaned ''location'' (clean_text N location None);
          cleaned = dict_set cleaned ''scraped_at'' (PStr (isoformat now));
          cleaned = dict_set cleaned ''source_url''
                      (dict_get_default raw_data ''source_url'' base_url)
      in cleaned)"

definition clean_portfolio_company ::
  "normalizers \<Rightarrow> hashing \<Rightarrow> pyval \<Rightarrow> datetime \<Rightarrow> pydict \<Rightarrow> pydict" where
  "clean_portfolio_company N H base_url now raw_data =
     (let cleaned = company_fields N base_url now raw_data
      in dict_set cleaned ''content_hash'' (PStr (calculate_content_hash H cleaned)))"

text \<open>
  \<^verbatim>\<open>clean_team_member\<close>, in the same two steps.  \<^verbatim>\<open>extract_name_and_title\<close> always
  answers with a dictionary that has the keys \<open>name\<close> and \<open>title\<close>.
\<close>

definition member_fields :: "normalizers \<Rightarrow> datetime \<Rightarrow> pydict \<Rightarrow> pydict" where
  "member_fields N now raw_data =
     (let cleaned = [];
          full_name = dict_get_default raw_data ''name'' (PStr []);
          cleaned =
            (if truthy full_name
             then (let name_title = extract_name_and_title N full_name;
                       cleaned = dict_set cleaned ''name'' (dict_get name_title ''name'');
                       title = py_or (dict_get name_title ''title'')
                                 (dict_get_default raw_data ''title'' (PStr []));
                       cleaned = dict_set cleaned ''title'' (standardize_title N title)
                   in if truthy (dict_get cleaned ''name'')
                      then (case parse_name N (dict_get cleaned ''name'') of
                              (first_name, last_name) \<Rightarrow>
                                dict_set (dict_set cleaned ''first_name'' first_name)
                                  ''last_name'' last_name)
                      else cleaned)
             else cleaned);
          cleaned = dict_set cleaned ''photo_url''
                      (normalize_url N
                         (py_or (dict_get raw_data ''photo_url'') (dict_get raw_data ''image_url'')));
          bio = py_or (dict_get raw_data ''bio'') (dict_get raw_data ''description'');
          cleaned = dict_set cleaned ''bio'' (clean_text N bio (Some 1000));
          cleaned = dict_set cleaned ''linkedin_url''
                      (validate_linkedin_url N
                         (py_or (dict_get raw_data ''linkedin'') (dict_get raw_data ''linkedin_url'')));
          cleaned = dict_set cleaned ''email'' (clean_text N (dict_get raw_data ''email'') None);
          cleaned = dict_set cleaned ''scraped_at'' (PStr (isoformat now))
      in cleaned)"

definition clean_team_member :: "normalizers \<Rightarrow> hashing \<Rightarrow> datetime \<Rightarrow> pydict \<Rightarrow> pydict" where
  "clean_team_member N H now raw_data =
     (let cleaned = member_fields N now raw_data
      in dict_set cleaned ''content_hash'' (PStr (calculate_content_hash H cleaned)))"

text \<open>
  \<^verbatim>\<open>clean_deal_data\<close>.  It returns \<^verbatim>\<open>None\<close> for a deal without a startup name, and the
  list comprehension over \<^verbatim>\<open>other_investors\<close> raises \<^verbatim>\<open>AttributeError\<close> when
  \<^verbatim>\<open>clean_text\<close> answers \<^verbatim>\<open>None\<close> for a non-empty entry (\<^verbatim>\<open>None.lower()\<close>).
\<close>

definition generic_filters :: "string list" where
  "generic_filters = [''others'', ''angel investors'', ''existing investors'', ''undisclosed'']"

fun clean_investors :: "normalizers \<Rightarrow> pyval list \<Rightarrow> exn + pyval list" where
  "clean_investors N [] = Inr []"
| "clean_investors N (entry # rest) =
     (if truthy entry
      then (case clean_text N entry None of
              PStr s \<Rightarrow>
                (case clean_investors N rest of
                   Inl e \<Rightarrow> Inl e
                 | Inr kept \<Rightarrow>
                     if str_lower N s \<in> set generic_filters then Inr kept else Inr (PStr s # kept))
            | v \<Rightarrow> Inl (Raised Exception ''AttributeError: no attribute lower''))
      else clean_investors N rest)"

definition deal_fields ::
  "normalizers \<Rightarrow> datetime \<Rightarrow> pydict \<Rightarrow> pyval \<Rightarrow> exn + pydict option" where
  "deal_fields N now raw_data article_pub_date =
     (let startup_name = clean_text N (dict_get_default raw_data ''startup_name'' (PStr [])) None
      in if \<not> truthy startup_name then Inr None
         else
       (let cleaned = dict_set [] ''startup_name'' startup_name;
            cleaned = dict_set cleaned ''company_website''
                        (normalize_url N (dict_get raw_data ''company_website''));
            funding_amount = dict_get_default raw_data ''funding_amount_description'' (PStr []);
            cleaned = (if truthy funding_amount
                       then (case parse_funding_amount N funding_amount of
                               (amount, currency) \<Rightarrow>
                                 dict_set (dict_set (dict_set cleaned ''funding_amount'' amount)
                                             ''funding_currency'' currency)
                                   ''funding_amount_description'' funding_amount)
                       else cleaned);
            cleaned = dict_set cleaned ''round_type''
                        (standardize_funding_stage N (dict_get raw_data ''round_type''));
            cleaned = dict_set cleaned ''lead_investor''
                        (clean_text N (dict_get raw_data ''lead_investor'') None)
        in case (case dict_get_default raw_data ''other_investors'' (PList []) of
                   PList invs \<Rightarrow> clean_investors N invs
                 | v \<Rightarrow> Inr []) of
             Inl e \<Rightarrow> Inl e
           | Inr investors \<Rightarrow>
         (let cleaned = dict_set cleaned ''other_investors'' (PList investors);
              summary = dict_get_default raw_data ''summary'' (PStr []);
              location = dict_get raw_data ''location'';
              (location, summary) =
                 (if truthy summary \<and> \<not> truthy location
                  then extract_location_from_summary N summary
                  else (location, summary));
              cleaned = dict_set cleaned ''location'' (clean_text N location None);
              cleaned = dict_set cleaned ''summary'' (clean_text N summary (Some 250));
              cleaned = dict_set cleaned ''source_article_url''
                          (dict_get raw_data ''source_article_url'');
              cleaned = dict_set cleaned ''source_article_title''
                          (clean_text N (dict_get raw_data ''source_article_title'') None);
              cleaned = (if truthy article_pub_date
                         then dict_set cleaned ''article_publication_date''
                                (case article_pub_date of
                                   PStr s \<Rightarrow> PStr (str_strip N s)
                                 | v \<Rightarrow> PStr (str_of N v))
                         else cleaned);
              cleaned = dict_set cleaned ''extracted_at'' (PStr (isoformat now))
          in Inr (Some cleaned))))"

definition clean_deal_data ::
  "normalizers \<Rightarrow> hashing \<Rightarrow> datetime \<Rightarrow> pydict \<Rightarrow> pyval \<Rightarrow> exn + pydict option" where
  "clean_deal_data N H now raw_data article_pub_date =
     (case deal_fields N now raw_data article_pub_date of
        Inl e \<Rightarrow> Inl e
      | Inr None \<Rightarrow> Inr None
      | Inr (Some cleaned) \<Rightarrow>
          Inr (Some (dict_set cleaned ''content_hash'' (PStr (calculate_content_hash H cleaned)))))"

section \<open>The fetch layer (base\_scraper.py)\<close>

text \<open>
  What the network answers: an HTTP reply with its status, its \<^verbatim>\<open>Retry-After\<close> header and
  its body, or a failure of the request itself; for the browser, whether \<^verbatim>\<open>page.goto\<close>
  and the wait for the selector fail, and the page content.  The header is absent, or
  \<^verbatim>\<open>int\<close> reads a number of seconds from it, or \<^verbatim>\<open>int\<close> raises \<^verbatim>\<open>ValueError\<close> on it.
\<close>

datatype retry_after = Absent | Seconds int | Malformed string

datatype http_reply = Status nat retry_after string | Fails exn

datatype page_reply = Page "exn option" "exn option" string

text \<open>
  The scraper object with the part of the world it touches: its request counter and start
  time, the configured delay, its two circuit breakers; the current time, the durations
  slept so far, the number of random draws, the replies still to come, and the log.
  Time advances by sleeping only.
\<close>

record scraper =
  request_count :: nat
  start_time :: real
  request_delay :: real
  http_circuit_breaker :: circuit_breaker
  playwright_circuit_breaker :: circuit_breaker
  time_now :: real
  sleeps :: "real list"
  draws :: nat
  http_replies :: "http_reply list"
  page_replies :: "page_reply list"
  journal :: "log_entry list"

text \<open>
  Given from outside: the \<open>n\<close>-th value of \<^verbatim>\<open>random.random()\<close>, the host part that
  \<^verbatim>\<open>urlparse\<close> finds in a URL, and the subclass's \<^verbatim>\<open>_parse_page\<close>.
\<close>

record scrape_env =
  samples :: "nat \<Rightarrow> real"
  netloc :: "string \<Rightarrow> string"
  parse_page :: "string \<Rightarrow> string \<Rightarrow> scraper \<Rightarrow> (exn + pyval) \<times> scraper"

text \<open>\<^verbatim>\<open>BaseScraper.__init__\<close>, at time \<open>now\<close>, with the configured request delay.\<close>

definition BaseScraper :: "real \<Rightarrow> real \<Rightarrow> scraper" where
  "BaseScraper delay now =
     \<lparr>request_count = 0, start_time = now, request_delay = delay,
      http_circuit_breaker = CircuitBreaker 5 300 [ClientError, TimeoutError, RateLimitError],
      playwright_circuit_breaker = CircuitBreaker 3 600 [Exception],
      time_now = now, sleeps = [], draws = 0, http_replies = [], page_replies = [],
      journal = []\<rparr>"

definition asyncio_sleep :: "real \<Rightarrow> scraper \<Rightarrow> scraper" where
  "asyncio_sleep d w = w\<lparr>time_now := time_now w + max 0 d, sleeps := sleeps w @ [d]\<rparr>"

definition random_random :: "scrape_env \<Rightarrow> scraper \<Rightarrow> real \<times> scraper" where
  "random_random env w = (samples env (draws w), w\<lparr>draws := Suc (draws w)\<rparr>)"

definition write_log :: "log_entry \<Rightarrow> scraper \<Rightarrow> scraper" where
  "write_log entry w = w\<lparr>journal := journal w @ [entry]\<rparr>"

text \<open>\<^verbatim>\<open>_rate_limit_delay\<close>; \<^verbatim>\<open>random.uniform(a, b)\<close> is \<open>a + (b - a) * random()\<close>.\<close>

definition rate_limit_delay :: "scrape_env \<Rightarrow> scraper \<Rightarrow> scraper" where
  "rate_limit_delay env w =
     (let w1 = w\<lparr>request_count := Suc (request_count w)\<rparr>;
          w2 = (if request_delay w1 > 0
                then (case random_random env w1 of
                        (r, w') \<Rightarrow> asyncio_sleep (request_delay w' * (0.5 + (1.5 - 0.5) * r)) w')
                else w1);
          elapsed = time_now w2 - start_time w2
      in if elapsed > 0
         then (if real (request_count w2) / elapsed > 10 then asyncio_sleep 0.5 w2 else w2)
         else w2)"

text \<open>
  The closure \<^verbatim>\<open>_fetch\<close> of \<^verbatim>\<open>fetch_with_requests\<close>.  A request with no reply left fails
  as a connection error; \<^verbatim>\<open>raise_for_status\<close> raises a \<^verbatim>\<open>ClientError\<close> for a status of
  400 or more; the soup is the body.
\<close>

definition http_fetch :: "scrape_env \<Rightarrow> string \<Rightarrow> scraper \<Rightarrow> (exn + string) \<times> scraper" where
  "http_fetch env url w =
     (let w1 = rate_limit_delay env w
      in case http_replies w1 of
           [] \<Rightarrow> (Inl (Raised ClientError ''connection failed''), w1)
         | Fails e # rest \<Rightarrow> (Inl e, w1\<lparr>http_replies := rest\<rparr>)
         | Status code header body # rest \<Rightarrow>
             (let w2 = w1\<lparr>http_replies := rest\<rparr>
              in if code = 429
                 then (case header of
                         Malformed s \<Rightarrow> (Inl (Raised ValueError s), w2)
                       | Absent \<Rightarrow>
                           (Inl (RateLimited url),
                            asyncio_sleep 60
                              (write_log (Log WARNING ''Rate limited. Waiting'' [AInt 60]) w2))
                       | Seconds n \<Rightarrow>
                           (Inl (RateLimited url),
                            asyncio_sleep (real_of_int n)
                              (write_log (Log WARNING ''Rate limited. Waiting'' [AInt n]) w2)))
                 else if code \<ge> 400 then (Inl (Raised ClientError ''bad status''), w2)
                 else (Inr body, w2)))"

text \<open>
  \<^verbatim>\<open>@with_retry(max_attempts=3, exceptions=(aiohttp.ClientError, asyncio.TimeoutError))\<close>
  around the call of \<^verbatim>\<open>_fetch\<close> through \<^verbatim>\<open>self._http_circuit_breaker\<close>.
\<close>

definition requests_policy :: retry_policy where
  "requests_policy = default_policy\<lparr>max_attempts := 3, exceptions := [ClientError, TimeoutError]\<rparr>"

definition guarded_http_fetch :: "scrape_env \<Rightarrow> string \<Rightarrow> scraper \<Rightarrow> (exn + string) \<times> scraper" where
  "guarded_http_fetch env url w =
     (case breaker_call time_now
             (\<lambda>(cb, w). case http_fetch env url w of (r, w') \<Rightarrow> (r, cb, w'))
             (http_circuit_breaker w, w) of
        (r, cb', w') \<Rightarrow> (r, w'\<lparr>http_circuit_breaker := cb'\<rparr>))"

definition fetch_with_requests :: "scrape_env \<Rightarrow> string \<Rightarrow> scraper \<Rightarrow> (exn + string) \<times> scraper" where
  "fetch_with_requests env url =
     with_retry requests_policy asyncio_sleep (random_random env) (guarded_http_fetch env url)"

text \<open>
  \<^verbatim>\<open>fetch_with_playwright\<close>: \<^verbatim>\<open>@with_retry(max_attempts=3, exceptions=(Exception,))\<close> around
  the call of its \<^verbatim>\<open>_fetch\<close> through \<^verbatim>\<open>self._playwright_circuit_breaker\<close>.  A failed wait
  for the selector is logged and the content is returned all the same.
\<close>

definition page_fetch ::
  "scrape_env \<Rightarrow> string \<Rightarrow> string option \<Rightarrow> scraper \<Rightarrow> (exn + string) \<times> scraper" where
  "page_fetch env url wait_for w =
     (let w1 = rate_limit_delay env w
      in case page_replies w1 of
           [] \<Rightarrow> (Inl (Raised Exception ''navigation failed''), w1)
         | Page goto selector content # rest \<Rightarrow>
             (let w2 = w1\<lparr>page_replies := rest\<rparr>
              in case goto of
                   Some e \<Rightarrow> (Inl e, w2)
                 | None \<Rightarrow>
                     (case (wait_for, selector) of
                        (Some s, Some e) \<Rightarrow>
                          if s \<noteq> []
                          then (Inr content,
                                write_log (Log WARNING ''Failed to wait for selector'' [AStr s, AExn e]) w2)
                          else (Inr content, w2)
                      | other \<Rightarrow> (Inr content, w2))))"

definition playwright_policy :: retry_policy where
  "playwright_policy = default_policy\<lparr>max_attempts := 3, exceptions := [Exception]\<rparr>"

definition guarded_page_fetch ::
  "scrape_env \<Rightarrow> string \<Rightarrow> string option \<Rightarrow> scraper \<Rightarrow> (exn + string) \<times> scraper" where
  "guarded_page_fetch env url wait_for w =
     (case breaker_call time_now
             (\<lambda>(cb, w). case page_fetch env url wait_for w of (r, w') \<Rightarrow> (r, cb, w'))
             (playwright_circuit_breaker w, w) of
        (r, cb', w') \<Rightarrow> (r, w'\<lparr>playwright_circuit_breaker := cb'\<rparr>))"

definition fetch_with_playwright ::
  "scrape_env \<Rightarrow> string \<Rightarrow> string option \<Rightarrow> scraper \<Rightarrow> (exn + string) \<times> scraper" where
  "fetch_with_playwright env url wait_for =
     with_retry playwright_policy asyncio_sleep (random_random env)
       (guarded_page_fetch env url wait_for)"

text \<open>
  \<^verbatim>\<open>scrape_with_fallback\<close>, with \<^verbatim>\<open>**kwargs\<close> empty.  The two transports and the parser are
  methods of the object, so the coordinator is written over any such three
  (\<open>scrape_with_fallback_via\<close>) and \<open>scrape_with_fallback\<close> is its instance for the
  methods above.  \<open>use_playwright = None\<close> is the auto-detection by host name.
\<close>

definition str_contains :: "string \<Rightarrow> string \<Rightarrow> bool" where
  "str_contains sub s = list_ex (\<lambda>i. take (length sub) (drop i s) = sub) [0..<Suc (length s)]"

definition js_heavy_domains :: "string list" where
  "js_heavy_domains = [''google.'', ''facebook.'', ''linkedin.'', ''github.'']"

definition scrape_with_fallback_via ::
  "(string \<Rightarrow> 'w \<Rightarrow> (exn + 's) \<times> 'w) \<Rightarrow> (string \<Rightarrow> 'w \<Rightarrow> (exn + 's) \<times> 'w)
     \<Rightarrow> ('s \<Rightarrow> string \<Rightarrow> 'w \<Rightarrow> (exn + 'r) \<times> 'w) \<Rightarrow> (log_entry \<Rightarrow> 'w \<Rightarrow> 'w) \<Rightarrow> (string \<Rightarrow> string)
     \<Rightarrow> string \<Rightarrow> bool option \<Rightarrow> 'w \<Rightarrow> (exn + 'r) \<times> 'w" where
  "scrape_with_fallback_via with_requests with_playwright parse logger host url use_playwright w =
     (let use_playwright =
            (case use_playwright of
               None \<Rightarrow> list_ex (\<lambda>domain. str_contains domain (host url)) js_heavy_domains
             | Some b \<Rightarrow> b);
          fetch_and_parse = (\<lambda>fetch w.
            case fetch url w of
              (Inl e, w1) \<Rightarrow> (Inl e, w1)
            | (Inr soup, w1) \<Rightarrow> parse soup url w1)
      in case (if use_playwright
               then fetch_and_parse with_playwright
                      (logger (Log DEBUG ''Using Playwright for'' [AStr url]) w)
               else fetch_and_parse with_requests
                      (logger (Log DEBUG ''Using requests for'' [AStr url]) w)) of
           (Inr result, w1) \<Rightarrow> (Inr result, w1)
         | (Inl e, w1) \<Rightarrow>
             (let w2 = logger (Log WARNING ''Primary scraping method failed'' [AStr url, AExn e]) w1
              in case (if use_playwright
                       then fetch_and_parse with_requests
                              (logger (Log INFO ''Falling back to requests for'' [AStr url]) w2)
                       else fetch_and_parse with_playwright
                              (logger (Log INFO ''Falling back to Playwright for'' [AStr url]) w2)) of
                   (Inr result, w3) \<Rightarrow> (Inr result, w3)
                 | (Inl fallback_error, w3) \<Rightarrow>
                     (Inl (ScrapeFailed url fallback_error),
                      logger (Log ERROR ''Both scraping methods failed''
                                [AStr url, AExn fallback_error]) w3)))"

definition scrape_with_fallback ::
  "scrape_env \<Rightarrow> string \<Rightarrow> bool option \<Rightarrow> scraper \<Rightarrow> (exn + pyval) \<times> scraper" where
  "scrape_with_fallback env =
     scrape_with_fallback_via (fetch_with_requests env) (\<lambda>url. fetch_with_playwright env url None)
       (parse_page env) write_log (netloc env)"

text \<open>
  What a failure carries: the exceptions among its arguments and its explicit cause
  (\<^verbatim>\<open>raise ... from\<close>), transitively.  The implicit context that Python attaches to an
  exception raised inside a handler is not part of the value.
\<close>

fun carries :: "exn \<Rightarrow> exn \<Rightarrow> bool" where
  "carries x (ScrapeFailed url e) = (x = e \<or> carries x e)"
| "carries x (RetryExhausted n (Some e)) = (x = e \<or> carries x e)"
| "carries x e = False"

text \<open>
  Tallies: the world is extended by the number of runs of each transport (a run is one
  call of the transport's method, retries and breaker included).
\<close>

record 'w tally =
  base :: 'w
  http_runs :: nat
  browser_runs :: nat

definition tallied_http ::
  "(string \<Rightarrow> 'w \<Rightarrow> (exn + 's) \<times> 'w) \<Rightarrow> string \<Rightarrow> 'w tally \<Rightarrow> (exn + 's) \<times> 'w tally" where
  "tallied_http fetch url t =
     (case fetch url (base t) of (r, w') \<Rightarrow> (r, t\<lparr>base := w', http_runs := Suc (http_runs t)\<rparr>))"

definition tallied_browser ::
  "(string \<Rightarrow> 'w \<Rightarrow> (exn + 's) \<times> 'w) \<Rightarrow> string \<Rightarrow> 'w tally \<Rightarrow> (exn + 's) \<times> 'w tally" where
  "tallied_browser fetch url t =
     (case fetch url (base t) of
        (r, w') \<Rightarrow> (r, t\<lparr>base := w', browser_runs := Suc (browser_runs t)\<rparr>))"

definition tallied_parse ::
  "('s \<Rightarrow> string \<Rightarrow> 'w \<Rightarrow> (exn + 'r) \<times> 'w) \<Rightarrow> 's \<Rightarrow> string \<Rightarrow> 'w tally \<Rightarrow> (exn + 'r) \<times> 'w tally" where
  "tallied_parse parse soup url t =
     (case parse soup url (base t) of (r, w') \<Rightarrow> (r, t\<lparr>base := w'\<rparr>))"

definition tallied_logger :: "(log_entry \<Rightarrow> 'w \<Rightarrow> 'w) \<Rightarrow> log_entry \<Rightarrow> 'w tally \<Rightarrow> 'w tally" where
  "tallied_logger logger entry t = t\<lparr>base := logger entry (base t)\<rparr>"

section \<open>Properties of the circuit breaker\<close>

lemma run_calls_append:
  "run_calls clock (fs @ gs) s = run_calls clock gs (run_calls clock fs s)"
  by (induction fs arbitrary: s) simp_all

lemma failing_call:
  assumes "state cb \<noteq> OPEN" "isinstance e (expected_exception cb)"
  shows "breaker_call clock (raising (e, g)) (cb, w) = (Inl e, on_failure cb (clock (g w)), g w)"
  using assms by (simp add: breaker_call_def raising_def)

text \<open>
  Fewer qualifying failures than the threshold, from CLOSED with a zero count: every call
  is let through, the count is the number of failures and the breaker is still CLOSED.
\<close>

lemma failures_below_threshold:
  assumes "state cb = CLOSED" "failure_count cb = 0"
    and "list_all (\<lambda>eg. isinstance (fst eg) (expected_exception cb)) efs"
    and "int (length efs) < failure_threshold cb"
  shows "\<exists>cb' w'.
           run_calls clock (map (raising :: _ \<Rightarrow> _ \<Rightarrow> (exn + 'a) \<times> _) efs) (cb, w) = (cb', w')
           \<and> state cb' = CLOSED \<and> failure_count cb' = int (length efs)
           \<and> failure_threshold cb' = failure_threshold cb
           \<and> expected_exception cb' = expected_exception cb"
  using assms
proof (induction efs rule: rev_induct)
  case Nil
  then show ?case by simp
next
  case (snoc eg efs)
  then obtain cb' w' where
    run: "run_calls clock (map (raising :: _ \<Rightarrow> _ \<Rightarrow> (exn + 'a) \<times> _) efs) (cb, w) = (cb', w')"
    and st: "state cb' = CLOSED" and cnt: "failure_count cb' = int (length efs)"
    and thr: "failure_threshold cb' = failure_threshold cb"
    and ex: "expected_exception cb' = expected_exception cb"
    by auto
  obtain e g where eg: "eg = (e, g)" by (cases eg)
  from snoc.prems eg ex have inst: "isinstance e (expected_exception cb')" by simp
  from st have nopen: "state cb' \<noteq> OPEN" by simp
  have step: "breaker_call clock (raising (e, g) :: _ \<Rightarrow> (exn + 'a) \<times> _) (cb', w')
                = (Inl e, on_failure cb' (clock (g w')), g w')"
    by (rule failing_call [OF nopen inst])
  from snoc.prems cnt thr have lt: "failure_count cb' + 1 < failure_threshold cb'" by simp
  show ?case
    using run step st cnt thr ex lt eg
    by (simp add: run_calls_append on_failure_def Let_def)
qed

text \<open>
  C6.  A breaker with \<open>failure_threshold = k\<close> (\<open>k \<ge> 1\<close>, so that \<open>k - 1\<close> failures make
  sense) that is CLOSED with \<open>failure_count = 0\<close> is OPEN after exactly \<open>k\<close> consecutive
  calls whose wrapped function raises an exception of the \<open>expected_exception\<close> filter,
  and is still CLOSED after only \<open>k - 1\<close> such calls.  The failing functions may raise
  different exceptions and change the world (let time pass) in any way.
\<close>

theorem breaker_threshold:
  assumes "1 \<le> k" "failure_threshold cb = k" "state cb = CLOSED" "failure_count cb = 0"
    and "list_all (\<lambda>eg. isinstance (fst eg) (expected_exception cb)) efs"
  shows "(int (length efs) = k \<longrightarrow>
            state (fst (run_calls clock
              (map (raising :: _ \<Rightarrow> _ \<Rightarrow> (exn + 'a) \<times> _) efs) (cb, w))) = OPEN)
       \<and> (int (length efs) = k - 1 \<longrightarrow>
            state (fst (run_calls clock
              (map (raising :: _ \<Rightarrow> _ \<Rightarrow> (exn + 'a) \<times> _) efs) (cb, w))) = CLOSED)"
proof (intro conjI impI)
  assume len: "int (length efs) = k - 1"
  with assms have "int (length efs) < failure_threshold cb" by simp
  from failures_below_threshold [where ?'a = 'a, OF assms(3) assms(4) assms(5) this, of clock w]
  show "state (fst (run_calls clock
          (map (raising :: _ \<Rightarrow> _ \<Rightarrow> (exn + 'a) \<times> _) efs) (cb, w))) = CLOSED"
    by auto
next
  assume len: "int (length efs) = k"
  with assms(1) have ne: "efs \<noteq> []" by auto
  then obtain efs' eg where split: "efs = efs' @ [eg]" by (meson rev_exhaust)
  obtain e g where eg: "eg = (e, g)" by (cases eg)
  from assms(5) split have all': "list_all (\<lambda>eg. isinstance (fst eg) (expected_exception cb)) efs'"
    and inst: "isinstance e (expected_exception cb)" using eg by simp_all
  from len split assms(2) have lt: "int (length efs') < failure_threshold cb" by simp
  from failures_below_threshold [where ?'a = 'a, OF assms(3) assms(4) all' lt, of clock w]
  obtain cb' w' where
    run: "run_calls clock (map (raising :: _ \<Rightarrow> _ \<Rightarrow> (exn + 'a) \<times> _) efs') (cb, w) = (cb', w')"
    and st: "state cb' = CLOSED" and cnt: "failure_count cb' = int (length efs')"
    and thr: "failure_threshold cb' = failure_threshold cb"
    and ex: "expected_exception cb' = expected_exception cb"
    by auto
  from st have nopen: "state cb' \<noteq> OPEN" by simp
  from inst ex have inst': "isinstance e (expected_exception cb')" by simp
  have step: "breaker_call clock (raising (e, g) :: _ \<Rightarrow> (exn + 'a) \<times> _) (cb', w')
                = (Inl e, on_failure cb' (clock (g w')), g w')"
    by (rule failing_call [OF nopen inst'])
  from len split cnt thr assms(2) have "failure_count cb' + 1 \<ge> failure_threshold cb'" by simp
  then show "state (fst (run_calls clock
               (map (raising :: _ \<Rightarrow> _ \<Rightarrow> (exn + 'a) \<times> _) efs) (cb, w))) = OPEN"
    using run step split eg by (simp add: run_calls_append on_failure_def Let_def)
qed

text \<open>
  The default HTTP breaker of \<^verbatim>\<open>BaseScraper\<close> has threshold 5: five connection errors
  open it, four leave it closed.
\<close>

theorem breaker_threshold_witness:
  "state (fst (run_calls (\<lambda>w. w)
       (map (raising :: _ \<Rightarrow> _ \<Rightarrow> (exn + unit) \<times> _)
          (replicate 5 (Raised ClientError ''connection reset'', \<lambda>w. w + 1)))
       (CircuitBreaker 5 300 [ClientError, TimeoutError, RateLimitError], 0::real))) = OPEN
   \<and> state (fst (run_calls (\<lambda>w. w)
       (map (raising :: _ \<Rightarrow> _ \<Rightarrow> (exn + unit) \<times> _)
          (replicate 4 (Raised ClientError ''connection reset'', \<lambda>w. w + 1)))
       (CircuitBreaker 5 300 [ClientError, TimeoutError, RateLimitError], 0::real))) = CLOSED"
proof -
  let ?cb = "CircuitBreaker 5 300 [ClientError, TimeoutError, RateLimitError]"
  let ?eg = "(Raised ClientError ''connection reset'', \<lambda>w::real. w + 1)"
  have k: "(1::int) \<le> 5" by simp
  have thr: "failure_threshold ?cb = 5" and st: "state ?cb = CLOSED"
    and cnt: "failure_count ?cb = 0"
    by (simp_all add: CircuitBreaker_def)
  have q5: "list_all (\<lambda>eg. isinstance (fst eg) (expected_exception ?cb)) (replicate 5 ?eg)"
    and q4: "list_all (\<lambda>eg. isinstance (fst eg) (expected_exception ?cb)) (replicate 4 ?eg)"
    by (simp_all add: CircuitBreaker_def isinstance_def list_all_length)
  show ?thesis
    using breaker_threshold [where ?'a = unit, OF k thr st cnt q5, of "\<lambda>w. w" 0]
      breaker_threshold [where ?'a = unit, OF k thr st cnt q4, of "\<lambda>w. w" 0]
    by simp
qed

text \<open>
  C7.  While the breaker is OPEN with \<open>last_failure_time = t\<close>: a call made when less than
  \<open>timeout\<close> (the cooldown) has passed since \<open>t\<close> raises the circuit-open error and
  leaves breaker and world as they were, so the wrapped function is not invoked (its
  observation list is unchanged); a call made when at least \<open>timeout\<close> has passed invokes
  the wrapped function exactly once, and the breaker that invocation sees is HALF\_OPEN
  with \<open>failure_count = 0\<close>.
\<close>

theorem breaker_cooldown:
  assumes "state cb = OPEN" "last_failure_time cb = Some t"
  shows "(clock (inner p) - t < timeout cb \<longrightarrow>
            breaker_call (clock \<circ> inner) (observed func) (cb, p)
              = (Inl (CircuitOpen (Some t)), cb, p))
       \<and> (clock (inner p) - t \<ge> timeout cb \<longrightarrow>
            seen (snd (snd (breaker_call (clock \<circ> inner) (observed func) (cb, p))))
              = seen p @ [cb\<lparr>state := HALF_OPEN, failure_count := 0\<rparr>])"
  using assms
  by (auto simp add: breaker_call_def observed_def should_try_reset_def Let_def
      split: prod.splits sum.splits)

theorem breaker_cooldown_witness:
  "breaker_call ((\<lambda>w. w) \<circ> inner) (observed (returning (''page'', \<lambda>w. w + 2)))
     (\<lparr>failure_threshold = 3, timeout = 600, expected_exception = [Exception],
       failure_count = 3, last_failure_time = Some 1000, state = OPEN\<rparr>,
      \<lparr>inner = 1599, seen = []\<rparr>)
     = (Inl (CircuitOpen (Some 1000)),
        \<lparr>failure_threshold = 3, timeout = 600, expected_exception = [Exception],
         failure_count = 3, last_failure_time = Some 1000, state = OPEN\<rparr>,
        \<lparr>inner = 1599, seen = []\<rparr>)
   \<and> seen (snd (snd (breaker_call ((\<lambda>w. w) \<circ> inner) (observed (returning (''page'', \<lambda>w. w + 2)))
       (\<lparr>failure_threshold = 3, timeout = 600, expected_exception = [Exception],
         failure_count = 3, last_failure_time = Some 1000, state = OPEN\<rparr>,
        \<lparr>inner = 1600, seen = []\<rparr>))))
     = [\<lparr>failure_threshold = 3, timeout = 600, expected_exception = [Exception],
         failure_count = 0, last_failure_time = Some 1000, state = HALF_OPEN\<rparr>]"
proof -
  let ?cb = "\<lparr>failure_threshold = 3, timeout = 600, expected_exception = [Exception],
       failure_count = 3, last_failure_time = Some (1000::real), state = OPEN\<rparr>"
  have st: "state ?cb = OPEN" and lf: "last_failure_time ?cb = Some 1000" by simp_all
  show ?thesis
    using breaker_cooldown [OF st lf, of "\<lambda>w. w" "\<lparr>inner = 1599, seen = []\<rparr>"
          "returning (''page'', \<lambda>w. w + 2)"]
      breaker_cooldown [OF st lf, of "\<lambda>w. w" "\<lparr>inner = 1600, seen = []\<rparr>"
          "returning (''page'', \<lambda>w. w + 2)"]
    by simp
qed

text \<open>
  \<^verbatim>\<open>_on_failure\<close> never reads the state: a qualifying failure in HALF\_OPEN is counted like
  one in CLOSED, and the circuit opens only when the count, which the probe has reset to
  0, has reached \<open>failure_threshold\<close> again.
\<close>

lemma failure_in_half_open:
  assumes "state cb = HALF_OPEN" "isinstance e (expected_exception cb)"
  shows "breaker_call clock (raising (e, g) :: _ \<Rightarrow> (exn + 'a) \<times> _) (cb, w) =
           (Inl e,
            cb\<lparr>failure_count := failure_count cb + 1,
               last_failure_time := Some (clock (g w)),
               state := (if failure_count cb + 1 \<ge> failure_threshold cb
                         then OPEN else HALF_OPEN)\<rparr>,
            g w)"
  using assms by (simp add: breaker_call_def raising_def on_failure_def Let_def)

text \<open>
  C4 does not hold of the code: a failed probe does not reopen the circuit.  A breaker with
  threshold 5 and cooldown 60 is opened by five connection errors at time 0.  The call at
  time 100 is the probe: the wrapped function is invoked under HALF\_OPEN and fails with a
  qualifying error, and the breaker is left HALF\_OPEN with \<open>failure_count = 1\<close>, not OPEN.
  No cooldown guards the calls that follow: four more calls at the same instant 100 all
  invoke the failing function (five invocations at one instant, each seeing HALF\_OPEN),
  and only the fifth failure opens the circuit, so that the sixth call is refused.
\<close>

theorem half_open_probe_failure:
  "(let down = (Raised ClientError ''down'', \<lambda>w. w);
        clock = (\<lambda>w. w) \<circ> inner;
        opened = fst (run_calls (\<lambda>w. w)
                   (map (raising :: _ \<Rightarrow> _ \<Rightarrow> (exn + unit) \<times> _) (replicate 5 down))
                   (CircuitBreaker 5 60 [ClientError], 0::real));
        call = breaker_call clock (observed (raising down :: _ \<Rightarrow> (exn + unit) \<times> _));
        probe = call (opened, \<lparr>inner = 100, seen = []\<rparr>);
        second = call (snd probe);
        third = call (snd second);
        fourth = call (snd third);
        fifth = call (snd fourth);
        sixth = call (snd fifth)
    in state opened = OPEN \<and> last_failure_time opened = Some 0
       \<and> fst probe = Inl (Raised ClientError ''down'')
       \<and> map state (seen (snd (snd probe))) = [HALF_OPEN]
       \<and> state (fst (snd probe)) = HALF_OPEN
       \<and> failure_count (fst (snd probe)) = 1
       \<and> last_failure_time (fst (snd probe)) = Some 100
       \<and> state (fst (snd probe)) \<noteq> OPEN
       \<and> map state (seen (snd (snd fifth)))
            = [HALF_OPEN, HALF_OPEN, HALF_OPEN, HALF_OPEN, HALF_OPEN]
       \<and> inner (snd (snd fifth)) = 100
       \<and> state (fst (snd fifth)) = OPEN
       \<and> failure_count (fst (snd fifth)) = 5
       \<and> fst sixth = Inl (CircuitOpen (Some 100))
       \<and> length (seen (snd (snd sixth))) = 5)"
  by (simp add: Let_def CircuitBreaker_def breaker_call_def raising_def observed_def
      on_failure_def should_try_reset_def isinstance_def numeral_eq_Suc)

section \<open>Properties of the retry executor\<close>

text \<open>
  The loop from attempt \<open>i\<close> on: at most \<open>n - i\<close> further invocations and \<open>n - i - 1\<close>
  further sleeps, each of a duration capped by \<open>max_delay\<close>.
\<close>

lemma retry_loop_bounds:
  fixes func :: "'w \<Rightarrow> (exn + 'a) \<times> 'w"
  assumes "n = nat (max_attempts p)" "i \<le> n"
    and "list_all (\<lambda>d. d \<le> max_delay p) (slept m)"
  shows "calls (snd (retry_loop p (metered_sleep sleep) (metered_random random)
                   (metered_func func) (map int [i..<n]) delay cause m)) \<le> calls m + (n - i)
       \<and> length (slept (snd (retry_loop p (metered_sleep sleep) (metered_random random)
                   (metered_func func) (map int [i..<n]) delay cause m)))
           \<le> length (slept m) + (n - i - 1)
       \<and> list_all (\<lambda>d. d \<le> max_delay p)
           (slept (snd (retry_loop p (metered_sleep sleep) (metered_random random)
                   (metered_func func) (map int [i..<n]) delay cause m)))"
  using assms
proof (induction "n - i" arbitrary: i delay cause m)
  case 0
  then show ?case by simp
next
  case (Suc k)
  then have lt: "i < n" by simp
  then have unf: "map int [i..<n] = int i # map int [Suc i..<n]" by (simp add: upt_conv_Cons)
  have k: "k = n - Suc i" using Suc.hyps by simp
  have le: "Suc i \<le> n" using lt by simp
  note IH = Suc.hyps(1) [OF k Suc.prems(1) le]
  obtain r w1 where f: "func (world m) = (r, w1)" by (cases "func (world m)")
  show ?case
  proof (cases r)
    case (Inr v)
    with f show ?thesis using Suc.prems(3) lt by (simp add: unf metered_func_def) arith
  next
    case (Inl e)
    let ?m1 = "m\<lparr>world := w1, calls := Suc (calls m)\<rparr>"
    have mf: "metered_func func m = (Inl e, ?m1)" using f Inl by (simp add: metered_func_def)
    consider (stop) "(case reraise_exceptions p of None \<Rightarrow> False
                      | Some cs \<Rightarrow> cs \<noteq> [] \<and> isinstance e cs)
                      \<or> \<not> isinstance e (exceptions p) \<or> int i = max_attempts p - 1"
      | (go) "\<not> (case reraise_exceptions p of None \<Rightarrow> False
                  | Some cs \<Rightarrow> cs \<noteq> [] \<and> isinstance e cs)"
             "isinstance e (exceptions p)" "int i \<noteq> max_attempts p - 1"
      by blast
    then show ?thesis
    proof cases
      case stop
      then show ?thesis using mf Suc.prems(3) lt by (auto simp add: unf; arith)
    next
      case go
      from go(3) lt Suc.prems(1) have lt2: "Suc i < n" by linarith
      obtain d m2 where jit:
        "(if jitter p
          then (case metered_random random ?m1 of (r, w') \<Rightarrow> (delay * (0.5 + r), w'))
          else (delay, ?m1)) = (d, m2)"
        by (cases "(if jitter p
                    then (case metered_random random ?m1 of (r, w') \<Rightarrow> (delay * (0.5 + r), w'))
                    else (delay, ?m1))")
      have m2c: "calls m2 = Suc (calls m)" and m2s: "slept m2 = slept m"
        using jit by (auto simp add: metered_random_def split: if_splits prod.splits)
      let ?m3 = "metered_sleep sleep (min d (max_delay p)) m2"
      have m3c: "calls ?m3 = Suc (calls m)"
        and m3s: "slept ?m3 = slept m @ [min d (max_delay p)]"
        using m2c m2s by (simp_all add: metered_sleep_def)
      have all3: "list_all (\<lambda>d. d \<le> max_delay p) (slept ?m3)"
        using Suc.prems(3) m3s by simp
      note IH' = IH [OF all3, of "delay * backoff_factor p" "Some e"]
      have step:
        "retry_loop p (metered_sleep sleep) (metered_random random) (metered_func func)
           (map int [i..<n]) delay cause m
         = retry_loop p (metered_sleep sleep) (metered_random random) (metered_func func)
             (map int [Suc i..<n]) (delay * backoff_factor p) (Some e) ?m3"
        using mf go jit by (simp add: unf)
      show ?thesis
        unfolding step using IH' m3c m3s lt2 by auto
    qed
  qed
qed

text \<open>
  C8.  For every retry policy, wrapped function, sleep and random source, started with
  the meters at zero: the wrapped function is invoked at most \<open>max_attempts\<close> times, the
  executor sleeps at most \<open>max_attempts - 1\<close> times, and every duration slept is at most
  \<open>max_delay\<close>, whatever the jitter sample.  The counts are natural numbers, so for a
  policy with \<open>max_attempts \<le> 0\<close> both bounds read 0: the loop body never runs.
\<close>

theorem retry_bound:
  fixes func :: "'w \<Rightarrow> (exn + 'a) \<times> 'w"
  shows "calls (snd (with_retry p (metered_sleep sleep) (metered_random random)
                  (metered_func func) \<lparr>world = w, calls = 0, slept = []\<rparr>))
           \<le> nat (max_attempts p)
       \<and> length (slept (snd (with_retry p (metered_sleep sleep) (metered_random random)
                  (metered_func func) \<lparr>world = w, calls = 0, slept = []\<rparr>)))
           \<le> nat (max_attempts p - 1)
       \<and> list_all (\<lambda>d. d \<le> max_delay p)
            (slept (snd (with_retry p (metered_sleep sleep) (metered_random random)
                  (metered_func func) \<lparr>world = w, calls = 0, slept = []\<rparr>)))"
proof -
  have n1: "nat (max_attempts p - 1) = nat (max_attempts p) - 1" by arith
  show ?thesis
    using retry_loop_bounds [where func = func and m = "\<lparr>world = w, calls = 0, slept = []\<rparr>"
        and i = 0 and n = "nat (max_attempts p)" and p = p and sleep = sleep
        and random = random and delay = "initial_delay p" and cause = None]
    by (simp add: with_retry_def n1)
qed

text \<open>
  Both bounds are reached, and the cap applies: with three attempts, no jitter, an initial
  delay of 40 seconds and the default factor 2 and maximum 60, a function that always
  times out is invoked three times and the executor sleeps 40 and then 60 seconds.
\<close>

lemma retry_three_attempts:
  "with_retry (default_policy\<lparr>jitter := False, initial_delay := 40\<rparr>)
     (metered_sleep (\<lambda>d w. w)) (metered_random (\<lambda>w. (0, w)))
     (metered_func (\<lambda>w. (Inl (Raised TimeoutError ''timed out'') :: exn + unit, w)))
     \<lparr>world = (), calls = 0, slept = []\<rparr>
   = (Inl (RetryExhausted 3 (Some (Raised TimeoutError ''timed out''))),
      \<lparr>world = (), calls = 3, slept = [40, 60]\<rparr>)"
  by (simp add: with_retry_def default_policy_def metered_sleep_def metered_random_def
      metered_func_def isinstance_def upt_conv_Cons)

section \<open>Properties of the store client\<close>

subsection \<open>Recent changes\<close>

lemma check_fields_raises: "check_fields d = Inl e \<Longrightarrow> \<exists>msg. e = Raised ValueError msg"
  by (auto simp add: check_fields_def split: if_splits)

lemma check_fields_returns: "check_fields d = Inr d' \<Longrightarrow> d' = d \<and> check_fields d' = Inr d'"
  by (simp add: check_fields_def split: if_splits)

text \<open>The first \<^verbatim>\<open>replace\<close>: all four arguments fit, and the fields are checked.\<close>

lemma replace_midnight:
  "replace_fields now (keep\<lparr>new_hour := Some 0, new_minute := Some 0, new_second := Some 0,
                            new_microsecond := Some 0\<rparr>)
     = check_fields (now\<lparr>hour := 0, minute := 0, second := 0, microsecond := 0\<rparr>)"
  by (simp add: replace_fields_def keyword_arg_def c_int_def keep_def)

text \<open>The second \<^verbatim>\<open>replace\<close>, on a datetime that passed the checks.\<close>

lemma replace_hour_negative:
  assumes "check_fields d = Inr d" "h < 0" "- (2 ^ 31) \<le> h"
  shows "replace_fields d (keep\<lparr>new_hour := Some h\<rparr>) = Inl (Raised ValueError ''hour must be in 0..23'')"
  using assms
  by (simp add: replace_fields_def keyword_arg_def c_int_def keep_def check_fields_def
      split: if_splits)

lemma replace_hour_overflow:
  assumes "h < - (2 ^ 31)"
  shows "\<exists>msg. replace_fields d (keep\<lparr>new_hour := Some h\<rparr>) = Inl (Raised OverflowError msg)"
  using assms by (simp add: replace_fields_def keyword_arg_def c_int_def keep_def)

text \<open>
  C10 (amended).  For every table name, every limit and every \<open>hours\<close> from 1 to \<open>2\<^sup>3\<^sup>1\<close>,
  whatever the clock and the store, \<^verbatim>\<open>get_recent_changes\<close> raises a \<^verbatim>\<open>ValueError\<close>: the
  first \<^verbatim>\<open>replace\<close> sets the hour to 0 and the second asks for the hour \<open>0 - hours\<close>, which
  is negative and still fits a C \<^verbatim>\<open>int\<close>.  Nothing was sent to the store (the request
  counter and the tables are as before; only the clock was read) and nothing was logged:
  the exception is raised outside the \<^verbatim>\<open>try\<close>.
\<close>

theorem recent_changes_raises:
  assumes "1 \<le> hours" "hours \<le> 2 ^ 31"
  shows "\<exists>msg. get_recent_changes env table hours limit db
           = (Inl (Raised ValueError msg), db\<lparr>clock_reads := Suc (clock_reads db)\<rparr>, [])"
proof -
  let ?now = "now_utc env (clock_reads db)"
  let ?db0 = "db\<lparr>clock_reads := Suc (clock_reads db)\<rparr>"
  let ?mid = "?now\<lparr>hour := 0, minute := 0, second := 0, microsecond := 0\<rparr>"
  have clock: "utc_now env db = (?now, ?db0)" by (simp add: utc_now_def)
  show ?thesis
  proof (cases "check_fields ?mid")
    case (Inl e)
    then obtain msg where "e = Raised ValueError msg" using check_fields_raises by blast
    with Inl clock show ?thesis by (simp add: get_recent_changes_def replace_midnight)
  next
    case (Inr cutoff_time)
    then have c: "cutoff_time = ?mid" and ok: "check_fields cutoff_time = Inr cutoff_time"
      using check_fields_returns by blast+
    from c have h: "hour cutoff_time - hours < 0" "- (2 ^ 31) \<le> hour cutoff_time - hours"
      using assms by simp_all
    from Inr clock replace_hour_negative [OF ok h] show ?thesis
      by (simp add: get_recent_changes_def replace_midnight)
  qed
qed

text \<open>The default \<open>hours = 24\<close>, \<open>limit = 100\<close>, on a valid clock reading.\<close>

theorem recent_changes_raises_witness:
  "get_recent_changes
     \<lparr>now_utc = (\<lambda>n. \<lparr>year = 2024, month = 3, day = 15, hour = 10, minute = 30,
                       second = 45, microsecond = 123456\<rparr>),
      unavailable = (\<lambda>n. False), rejects = (\<lambda>t d. False)\<rparr>
     ''portfolio_companies'' 24 100
     \<lparr>tables = (\<lambda>t. []), next_id = 1, requests = 0, clock_reads = 0\<rparr>
   = (Inl (Raised ValueError ''hour must be in 0..23''),
      \<lparr>tables = (\<lambda>t. []), next_id = 1, requests = 0, clock_reads = 1\<rparr>, [])"
proof -
  have h: "(1::int) \<le> 24" "(24::int) \<le> 2 ^ 31" by simp_all
  show ?thesis
    using recent_changes_raises [OF h, of
      "\<lparr>now_utc = (\<lambda>n. \<lparr>year = 2024, month = 3, day = 15, hour = 10, minute = 30,
                       second = 45, microsecond = 123456\<rparr>),
      unavailable = (\<lambda>n. False), rejects = (\<lambda>t d. False)\<rparr>"
      "''portfolio_companies''" 100
      "\<lparr>tables = (\<lambda>t. []), next_id = 1, requests = 0, clock_reads = 0\<rparr>"]
    by (simp add: get_recent_changes_def utc_now_def replace_fields_def keyword_arg_def
      c_int_def check_fields_def keep_def days_in_month_def)
qed

text \<open>
  C10 as stated fails for \<open>hours > 2\<^sup>3\<^sup>1\<close>: with \<open>hours = 2\<^sup>3\<^sup>1 + 1\<close> the hour asked for,
  \<open>-2147483649\<close>, does not fit a C \<^verbatim>\<open>int\<close>, and \<^verbatim>\<open>replace\<close> raises \<^verbatim>\<open>OverflowError\<close>, which
  is not a \<^verbatim>\<open>ValueError\<close>, before it checks any range.  Still nothing is sent to the store.
\<close>

theorem recent_changes_raises_counterexample:
  "get_recent_changes
     \<lparr>now_utc = (\<lambda>n. \<lparr>year = 2024, month = 3, day = 15, hour = 10, minute = 30,
                       second = 45, microsecond = 123456\<rparr>),
      unavailable = (\<lambda>n. False), rejects = (\<lambda>t d. False)\<rparr>
     ''portfolio_companies'' 2147483649 100
     \<lparr>tables = (\<lambda>t. []), next_id = 1, requests = 0, clock_reads = 0\<rparr>
   = (Inl (Raised OverflowError ''signed integer is less than minimum''),
      \<lparr>tables = (\<lambda>t. []), next_id = 1, requests = 0, clock_reads = 1\<rparr>, [])
   \<and> \<not> issubclass OverflowError ValueError"
  by (simp add: get_recent_changes_def utc_now_def replace_fields_def keyword_arg_def
      c_int_def check_fields_def keep_def days_in_month_def)

text \<open>
  The same for every larger \<open>hours\<close>, on a valid clock reading: an \<^verbatim>\<open>OverflowError\<close>, raised
  before any query.
\<close>

lemma recent_changes_overflows:
  assumes "2 ^ 31 < hours"
    and "check_fields ((now_utc env (clock_reads db))
           \<lparr>hour := 0, minute := 0, second := 0, microsecond := 0\<rparr>) = Inr cutoff_time"
  shows "\<exists>msg. get_recent_changes env table hours limit db
           = (Inl (Raised OverflowError msg), db\<lparr>clock_reads := Suc (clock_reads db)\<rparr>, [])"
proof -
  from assms(2) have "hour cutoff_time = 0" using check_fields_returns by fastforce
  with assms(1) have "hour cutoff_time - hours < - (2 ^ 31)" by simp
  from replace_hour_overflow [OF this, of cutoff_time] assms(2) show ?thesis
    by (auto simp add: get_recent_changes_def utc_now_def replace_midnight)
qed

subsection \<open>Batches\<close>

lemma gather_append:
  "gather up (xs @ ys) db =
     (case gather up xs db of (rs, db1, l1) \<Rightarrow>
        (case gather up ys db1 of (rs', db2, l2) \<Rightarrow> (rs @ rs', db2, l1 @ l2)))"
  by (induction xs arbitrary: db) (simp_all split: prod.splits)

lemma length_gather: "length (fst (gather up xs db)) = length xs"
proof (induction xs arbitrary: db)
  case Nil
  show ?case by simp
next
  case (Cons x xs)
  obtain r db1 l1 where u: "up x db = (r, db1, l1)" by (cases "up x db")
  obtain rs db2 l2 where g: "gather up xs db1 = (rs, db2, l2)" by (cases "gather up xs db1")
  from Cons.IH [of db1] g have "length rs = length xs" by simp
  with u g show ?case by simp
qed

lemma count_results_eq:
  "count_results what i j rs = (length (filter succeeded rs), failure_logs what (i + j) rs)"
proof (induction rs arbitrary: j)
  case Nil
  show ?case by simp
next
  case (Cons r rs)
  show ?case by (cases r) (simp_all add: Cons.IH)
qed

lemma failure_logs_append:
  "failure_logs what k (rs @ rs') = failure_logs what k rs @ failure_logs what (k + length rs) rs'"
proof (induction rs arbitrary: k)
  case Nil
  show ?case by simp
next
  case (Cons r rs)
  show ?case by (cases r) (simp_all add: Cons.IH)
qed

lemma drop_batch: "batch_at xs i @ drop (i + batch_size) xs = drop i xs"
  by (simp add: batch_at_def add.commute [of i] flip: drop_drop)

lemma starts_cover: "length xs \<le> ((length xs + (batch_size - 1)) div batch_size) * batch_size"
  by (simp add: batch_size_def)

text \<open>The loop from batch \<open>k\<close> on does what one pass over the rest of the list does.\<close>

lemma batch_loop_from:
  assumes "K = (length xs + (batch_size - 1)) div batch_size" "k \<le> K"
  shows "fst (batch_loop up what xs (map (\<lambda>b. b * batch_size) [k..<K]) db)
           = length (filter succeeded (fst (gather up (drop (k * batch_size) xs) db)))
       \<and> fst (snd (batch_loop up what xs (map (\<lambda>b. b * batch_size) [k..<K]) db))
           = fst (snd (gather up (drop (k * batch_size) xs) db))
       \<and> set (failure_logs what (k * batch_size) (fst (gather up (drop (k * batch_size) xs) db)))
           \<subseteq> set (snd (snd (batch_loop up what xs (map (\<lambda>b. b * batch_size) [k..<K]) db)))
       \<and> set (snd (snd (gather up (drop (k * batch_size) xs) db)))
           \<subseteq> set (snd (snd (batch_loop up what xs (map (\<lambda>b. b * batch_size) [k..<K]) db)))"
  using assms
proof (induction "K - k" arbitrary: k db)
  case 0
  then have "k = K" by simp
  moreover have "drop (K * batch_size) xs = []"
    using starts_cover [of xs] "0.prems"(1) by simp
  ultimately show ?case by simp
next
  case (Suc d)
  then have lt: "k < K" by simp
  then have unf: "map (\<lambda>b. b * batch_size) [k..<K]
                    = k * batch_size # map (\<lambda>b. b * batch_size) [Suc k..<K]"
    by (simp add: upt_conv_Cons)
  let ?i = "k * batch_size"
  let ?batch = "batch_at xs ?i"
  let ?rest = "drop (Suc k * batch_size) xs"
  have split: "drop ?i xs = ?batch @ ?rest"
    using drop_batch [of xs ?i] by (simp add: add.commute)
  obtain rsb db1 l1 where gb: "gather up ?batch db = (rsb, db1, l1)"
    by (cases "gather up ?batch db")
  obtain rsr db2 l2 where gr: "gather up ?rest db1 = (rsr, db2, l2)"
    by (cases "gather up ?rest db1")
  have gall: "gather up (drop ?i xs) db = (rsb @ rsr, db2, l1 @ l2)"
    unfolding split using gb gr by (simp add: gather_append)
  have d: "d = K - Suc k" using Suc.hyps(2) by simp
  have le: "Suc k \<le> K" using lt by simp
  note IH = Suc.hyps(1) [OF d Suc.prems(1) le, of db1]
  obtain m db3 l3 where bl:
    "batch_loop up what xs (map (\<lambda>b. b * batch_size) [Suc k..<K]) db1 = (m, db3, l3)"
    by (cases "batch_loop up what xs (map (\<lambda>b. b * batch_size) [Suc k..<K]) db1")
  from IH bl gr have m: "m = length (filter succeeded rsr)" and db3: "db3 = db2"
    and fl3: "set (failure_logs what (Suc k * batch_size) rsr) \<subseteq> set l3"
    and ul3: "set l2 \<subseteq> set l3"
    by simp_all
  have whole: "batch_loop up what xs (map (\<lambda>b. b * batch_size) [k..<K]) db
      = (length (filter succeeded rsb) + m, db3, l1 @ failure_logs what ?i rsb @ l3)"
    using gb bl by (simp add: unf count_results_eq)
  have lenb: "length rsb = length ?batch"
    using length_gather [of up ?batch db] gb by simp
  have tail: "failure_logs what (?i + length rsb) rsr = failure_logs what (Suc k * batch_size) rsr"
  proof (cases "?rest = []")
    case True
    with gr have "rsr = []" by simp
    then show ?thesis by simp
  next
    case False
    then have "Suc k * batch_size < length xs" by simp
    then have "length ?batch = batch_size" by (simp add: batch_at_def)
    with lenb show ?thesis by (simp add: add.commute)
  qed
  show ?case
    unfolding whole gall using m db3 fl3 ul3 tail
    by (auto simp add: failure_logs_append)
qed

lemma batches_from:
  assumes "K = (length xs + (batch_size - 1)) div batch_size" "k \<le> K"
  shows "concat (map (batch_at xs) (map (\<lambda>b. b * batch_size) [k..<K])) = drop (k * batch_size) xs"
  using assms
proof (induction "K - k" arbitrary: k)
  case 0
  then have "k = K" by simp
  moreover have "drop (K * batch_size) xs = []"
    using starts_cover [of xs] "0.prems"(1) by simp
  ultimately show ?case by simp
next
  case (Suc d)
  then have lt: "k < K" by simp
  have d: "d = K - Suc k" using Suc.hyps(2) by simp
  have le: "Suc k \<le> K" using lt by simp
  from Suc.hyps(1) [OF d Suc.prems(1) le] lt drop_batch [of xs "k * batch_size"]
  show ?case by (simp add: upt_conv_Cons add.commute)
qed

lemma batch_sizes:
  "list_all (\<lambda>i. batch_at xs i \<noteq> [] \<and> length (batch_at xs i) \<le> batch_size)
     (batch_starts (length xs))"
  by (auto simp add: list_all_iff batch_starts_def batch_at_def batch_size_def)

lemma butlast_upt0: "butlast [0..<K] = [0..<K - 1]"
  by (cases K) simp_all

lemma full_batches:
  "list_all (\<lambda>i. length (batch_at xs i) = batch_size) (butlast (batch_starts (length xs)))"
  by (auto simp add: list_all_iff batch_starts_def batch_at_def batch_size_def
      map_butlast [symmetric] butlast_upt0)

lemma upsert_batches_count:
  "concat (map (batch_at xs) (batch_starts (length xs))) = xs
   \<and> list_all (\<lambda>i. batch_at xs i \<noteq> [] \<and> length (batch_at xs i) \<le> 50) (batch_starts (length xs))
   \<and> list_all (\<lambda>i. length (batch_at xs i) = 50) (butlast (batch_starts (length xs)))
   \<and> length (fst (gather up xs db)) = length xs
   \<and> fst (upsert_batches up what xs db) = length (filter succeeded (fst (gather up xs db)))
   \<and> fst (snd (upsert_batches up what xs db)) = fst (snd (gather up xs db))
   \<and> set (failure_logs what 0 (fst (gather up xs db)))
        \<subseteq> set (snd (snd (upsert_batches up what xs db)))"
proof -
  let ?K = "(length xs + (batch_size - 1)) div batch_size"
  have bl: "batch_starts (length xs) = map (\<lambda>b. b * batch_size) [0..<?K]"
    by (simp add: batch_starts_def)
  from batch_loop_from [of ?K xs 0 up what db] batches_from [of ?K xs 0]
    batch_sizes [of xs] full_batches [of xs] length_gather [of up xs db]
  show ?thesis
    by (auto simp add: upsert_batches_def bl batch_size_def split: prod.splits)
qed

text \<open>The trace of one pass, and its batches.\<close>

lemma length_trace: "length (trace up xs db) = length xs"
  by (induction xs arbitrary: db) (simp_all split: prod.splits)

lemma gather_trace:
  "fst (gather up xs db) = map fst (trace up xs db)
   \<and> snd (snd (gather up xs db)) = concat (map snd (trace up xs db))"
proof (induction xs arbitrary: db)
  case Nil
  show ?case by simp
next
  case (Cons x xs)
  obtain r db1 l1 where u: "up x db = (r, db1, l1)" by (cases "up x db")
  obtain rs db2 l2 where g: "gather up xs db1 = (rs, db2, l2)" by (cases "gather up xs db1")
  from Cons.IH [of db1] g u show ?case by simp
qed

lemma take_trace: "take n (trace up xs db) = trace up (take n xs) db"
proof (induction xs arbitrary: n db)
  case Nil
  show ?case by simp
next
  case (Cons x xs)
  show ?case by (cases n) (simp_all add: Cons.IH split: prod.splits)
qed

lemma drop_trace:
  "drop n (trace up xs db) = trace up (drop n xs) (fst (snd (gather up (take n xs) db)))"
proof (induction xs arbitrary: n db)
  case Nil
  show ?case by simp
next
  case (Cons x xs)
  show ?case
  proof (cases n)
    case 0
    then show ?thesis by simp
  next
    case (Suc m)
    obtain r db1 l1 where u: "up x db = (r, db1, l1)" by (cases "up x db")
    obtain rs db2 l2 where g: "gather up (take m xs) db1 = (rs, db2, l2)"
      by (cases "gather up (take m xs) db1")
    from Cons.IH [of m db1] u g Suc show ?thesis by simp
  qed
qed

text \<open>A batch of the trace is the trace of the batch, from the store the records before it left.\<close>

lemma batch_trace:
  "batch_at (trace up xs db) i
     = trace up (batch_at xs i) (fst (snd (gather up (take i xs) db)))"
  by (simp add: batch_at_def drop_trace take_trace)

lemma gather_take_batch:
  "fst (snd (gather up (take (i + batch_size) xs) db))
     = fst (snd (gather up (batch_at xs i) (fst (snd (gather up (take i xs) db)))))"
  by (simp add: take_add batch_at_def gather_append split: prod.splits)

lemma batch_loop_logs:
  assumes "K = (length xs + (batch_size - 1)) div batch_size" "k \<le> K"
  shows "snd (snd (batch_loop up what xs (map (\<lambda>b. b * batch_size) [k..<K])
                     (fst (snd (gather up (take (k * batch_size) xs) db)))))
           = concat (map (\<lambda>i. concat (map snd (batch_at (trace up xs db) i))
                              @ failure_logs what i (map fst (batch_at (trace up xs db) i)))
                      (map (\<lambda>b. b * batch_size) [k..<K]))"
  using assms
proof (induction "K - k" arbitrary: k)
  case 0
  then show ?case by simp
next
  case (Suc d)
  then have lt: "k < K" by simp
  then have unf: "map (\<lambda>b. b * batch_size) [k..<K]
                    = k * batch_size # map (\<lambda>b. b * batch_size) [Suc k..<K]"
    by (simp add: upt_conv_Cons)
  let ?i = "k * batch_size"
  let ?dbk = "fst (snd (gather up (take ?i xs) db))"
  let ?batch = "batch_at xs ?i"
  obtain rsb db1 l1 where gb: "gather up ?batch ?dbk = (rsb, db1, l1)"
    by (cases "gather up ?batch ?dbk")
  have db1: "db1 = fst (snd (gather up (take (Suc k * batch_size) xs) db))"
    using gather_take_batch [of up ?i xs db] gb by (simp add: add.commute)
  have rsb: "rsb = map fst (batch_at (trace up xs db) ?i)"
    and l1: "l1 = concat (map snd (batch_at (trace up xs db) ?i))"
    using gather_trace [of up ?batch ?dbk] gb by (simp_all add: batch_trace)
  have d: "d = K - Suc k" using Suc.hyps(2) by simp
  have le: "Suc k \<le> K" using lt by simp
  note IH = Suc.hyps(1) [OF d Suc.prems(1) le]
  obtain m db3 l3 where bl:
    "batch_loop up what xs (map (\<lambda>b. b * batch_size) [Suc k..<K]) db1 = (m, db3, l3)"
    by (cases "batch_loop up what xs (map (\<lambda>b. b * batch_size) [Suc k..<K]) db1")
  have whole: "snd (snd (batch_loop up what xs (map (\<lambda>b. b * batch_size) [k..<K]) ?dbk))
      = l1 @ failure_logs what ?i rsb @ l3"
    using gb bl by (simp add: unf count_results_eq)
  from IH bl db1 have l3: "l3 = concat (map (\<lambda>i. concat (map snd (batch_at (trace up xs db) i))
                              @ failure_logs what i (map fst (batch_at (trace up xs db) i)))
                      (map (\<lambda>b. b * batch_size) [Suc k..<K]))"
    by simp
  have "snd (snd (batch_loop up what xs (map (\<lambda>b. b * batch_size) [k..<K]) ?dbk))
      = l1 @ failure_logs what ?i rsb @ l3" by (rule whole)
  also have "\<dots> = concat (map (\<lambda>i. concat (map snd (batch_at (trace up xs db) i))
                              @ failure_logs what i (map fst (batch_at (trace up xs db) i)))
                      (map (\<lambda>b. b * batch_size) [k..<K]))"
    by (simp add: unf l3 rsb l1)
  finally show ?case .
qed

lemma upsert_batches_logs:
  "snd (snd (upsert_batches up what xs db))
     = concat (map (\<lambda>i. concat (map snd (batch_at (trace up xs db) i))
                        @ failure_logs what i (map fst (batch_at (trace up xs db) i)))
                (batch_starts (length xs)))
       @ [Log INFO ''Successfully processed''
            [AInt (int (fst (upsert_batches up what xs db))), AInt (int (length xs)), AStr what]]"
proof -
  let ?K = "(length xs + (batch_size - 1)) div batch_size"
  have bl: "batch_starts (length xs) = map (\<lambda>b. b * batch_size) [0..<?K]"
    by (simp add: batch_starts_def)
  obtain n db' logs where r: "batch_loop up what xs (batch_starts (length xs)) db = (n, db', logs)"
    by (cases "batch_loop up what xs (batch_starts (length xs)) db")
  from batch_loop_logs [of ?K xs 0 up what db] r
  have "logs = concat (map (\<lambda>i. concat (map snd (batch_at (trace up xs db) i))
                        @ failure_logs what i (map fst (batch_at (trace up xs db) i)))
                (batch_starts (length xs)))"
    by (simp add: bl)
  with r show ?thesis by (simp add: upsert_batches_def)
qed

lemma upsert_batches_trace:
  "concat (map (batch_at xs) (batch_starts (length xs))) = xs
   \<and> list_all (\<lambda>i. batch_at xs i \<noteq> [] \<and> length (batch_at xs i) \<le> 50) (batch_starts (length xs))
   \<and> list_all (\<lambda>i. length (batch_at xs i) = 50) (butlast (batch_starts (length xs)))
   \<and> length (fst (gather up xs db)) = length xs
   \<and> fst (upsert_batches up what xs db) = length (filter succeeded (fst (gather up xs db)))
   \<and> fst (snd (upsert_batches up what xs db)) = fst (snd (gather up xs db))
   \<and> set (failure_logs what 0 (fst (gather up xs db)))
        \<subseteq> set (snd (snd (upsert_batches up what xs db)))
   \<and> map fst (trace up xs db) = fst (gather up xs db)
   \<and> snd (snd (upsert_batches up what xs db))
       = concat (map (\<lambda>i. concat (map snd (batch_at (trace up xs db) i))
                          @ failure_logs what i (map fst (batch_at (trace up xs db) i)))
                  (batch_starts (length xs)))
         @ [Log INFO ''Successfully processed''
              [AInt (int (fst (upsert_batches up what xs db))), AInt (int (length xs)), AStr what]]"
  by (insert upsert_batches_count [of xs up db what]
        gather_trace [of up xs db, THEN conjunct1, symmetric]
        upsert_batches_logs [of up what xs db],
      elim conjE, intro conjI, assumption+)

text \<open>
  C9.  For both batch functions, with \<open>up\<close> the upsert of one record: the batches
  \<^verbatim>\<open>xs[i:i + 50]\<close> for \<open>i = 0, 50, ...\<close> are non-empty, of at most 50 records (exactly 50
  but for the last), and put end to end they are the input list; every record gets a
  result (no failure ends the loop early); the number returned is the number of results
  that are a stored row, an exception or \<^verbatim>\<open>None\<close> not counting; the store is left as one
  pass of the upserts over the whole list leaves it; and for every exception the batch
  loop's error record, with the record's index in the input list, is in the log.
  The function works batch by batch: its log is, for each batch of 50 in turn, what the
  upserts of that batch logged followed by the error records of that batch's exceptions,
  and at the end the summary with the count; so the error records of one batch stand
  before everything the next batch logs.
\<close>

theorem batch_upsert_count:
  "list_all (\<lambda>(run, up, what).
       concat (map (batch_at xs) (batch_starts (length xs))) = xs
     \<and> list_all (\<lambda>i. batch_at xs i \<noteq> [] \<and> length (batch_at xs i) \<le> 50)
         (batch_starts (length xs))
     \<and> list_all (\<lambda>i. length (batch_at xs i) = 50) (butlast (batch_starts (length xs)))
     \<and> length (fst (gather up xs db)) = length xs
     \<and> fst (run xs db) = length (filter succeeded (fst (gather up xs db)))
     \<and> fst (snd (run xs db)) = fst (snd (gather up xs db))
     \<and> set (failure_logs what 0 (fst (gather up xs db))) \<subseteq> set (snd (snd (run xs db)))
     \<and> map fst (trace up xs db) = fst (gather up xs db)
     \<and> snd (snd (run xs db))
         = concat (map (\<lambda>i. concat (map snd (batch_at (trace up xs db) i))
                            @ failure_logs what i (map fst (batch_at (trace up xs db) i)))
                    (batch_starts (length xs)))
           @ [Log INFO ''Successfully processed''
                [AInt (int (fst (run xs db))), AInt (int (length xs)), AStr what]])
   [(upsert_companies_with_change_tracking env site_id,
       upsert_portfolio_company env site_id, ''company''),
    (upsert_team_members_with_change_tracking env site_id,
       upsert_team_member env site_id, ''member'')]"
  unfolding list_all_Cons_iff list_all_Nil_iff prod.case
    upsert_companies_with_change_tracking_def upsert_team_members_with_change_tracking_def
  by (intro conjI TrueI upsert_batches_trace)

text \<open>
  The scenario of C9 over two batches: 51 records, of which the store rejects the write of
  \<open>B\<close> (index 1), the records 2 to 49 have no name, and \<open>C\<close> (index 50) is alone in the
  second batch.  \<open>A\<close> and \<open>C\<close> are inserted, the count is 2, every failure is logged with
  its index, and the error records of the first batch stand before the record of \<open>C\<close>.
\<close>

theorem batch_upsert_count_witness:
  "(let env = \<lparr>now_utc = (\<lambda>n. \<lparr>year = 2024, month = 3, day = 15, hour = 10, minute = 30,
                                second = int n, microsecond = 0\<rparr>),
               unavailable = (\<lambda>n. False),
               rejects = (\<lambda>t d. dict_get d ''name'' = PStr ''B'')\<rparr>;
        xs = [[(''name'', PStr ''A''), (''content_hash'', PStr ''ha'')],
              [(''name'', PStr ''B''), (''content_hash'', PStr ''hb'')]]
             @ replicate 48 [(''content_hash'', PStr ''hx'')]
             @ [[(''name'', PStr ''C''), (''content_hash'', PStr ''hc'')]];
        db = \<lparr>tables = (\<lambda>t. []), next_id = 1, requests = 0, clock_reads = 0\<rparr>;
        run = upsert_companies_with_change_tracking env 7 xs db
    in length xs = 51
     \<and> map (\<lambda>i. length (batch_at xs i)) (batch_starts (length xs)) = [50, 1]
     \<and> fst run = 2
     \<and> map (\<lambda>r. dict_get r ''name'') (tables (fst (snd run)) ''portfolio_companies'')
         = [PStr ''A'', PStr ''C'']
     \<and> Log ERROR ''Error processing''
           [AStr ''company'', AInt 1, AExn (Raised Exception ''constraint violation'')]
         \<in> set (snd (snd run))
     \<and> snd (snd run)
         = [Log INFO ''Created new'' [AVal (PStr ''A'')],
            Log ERROR ''Error upserting''
              [AStr ''portfolio_companies'', AExn (Raised Exception ''constraint violation'')]]
           @ replicate 48 (Log ERROR ''Error upserting''
                             [AStr ''portfolio_companies'', AExn (Raised KeyError ''name'')])
           @ [Log ERROR ''Error processing''
                [AStr ''company'', AInt 1, AExn (Raised Exception ''constraint violation'')]]
           @ map (\<lambda>j. Log ERROR ''Error processing''
                         [AStr ''company'', AInt j, AExn (Raised KeyError ''name'')]) [2..49]
           @ [Log INFO ''Created new'' [AVal (PStr ''C'')],
              Log INFO ''Successfully processed'' [AInt 2, AInt 51, AStr ''company'']])"
proof -
  let ?env = "\<lparr>now_utc = (\<lambda>n. \<lparr>year = 2024, month = 3, day = 15, hour = 10, minute = 30,
                                second = int n, microsecond = 0\<rparr>),
               unavailable = (\<lambda>n. False),
               rejects = (\<lambda>t d. dict_get d ''name'' = PStr ''B'')\<rparr>"
  let ?db = "\<lparr>tables = (\<lambda>t. []), next_id = 1, requests = 0, clock_reads = 0\<rparr>"
  define xs where "xs =
             [[(''name'', PStr ''A''), (''content_hash'', PStr ''ha'')],
              [(''name'', PStr ''B''), (''content_hash'', PStr ''hb'')]]
             @ replicate 48 [(''content_hash'', PStr ''hx'')]
             @ [[(''name'', PStr ''C''), (''content_hash'', PStr ''hc'')]]"
  define G where "G = gather (upsert_portfolio_company ?env 7) xs ?db"
  define T where "T = trace (upsert_portfolio_company ?env 7) xs ?db"
  define R where "R = upsert_companies_with_change_tracking ?env 7 xs ?db"
  have len: "length xs = 51"
    and sizes: "map (\<lambda>i. length (batch_at xs i)) (batch_starts 51) = [50, 1]"
    unfolding xs_def by code_simp+
  have rs: "length (filter succeeded (fst G)) = 2"
    and names: "map (\<lambda>r. dict_get r ''name'') (tables (fst (snd G)) ''portfolio_companies'')
              = [PStr ''A'', PStr ''C'']"
    unfolding G_def xs_def by code_simp+
  have tl: "concat (map (\<lambda>i. concat (map snd (batch_at T i))
                            @ failure_logs ''company'' i (map fst (batch_at T i)))
                    (batch_starts 51))
           = [Log INFO ''Created new'' [AVal (PStr ''A'')],
            Log ERROR ''Error upserting''
              [AStr ''portfolio_companies'', AExn (Raised Exception ''constraint violation'')]]
           @ replicate 48 (Log ERROR ''Error upserting''
                             [AStr ''portfolio_companies'', AExn (Raised KeyError ''name'')])
           @ [Log ERROR ''Error processing''
                [AStr ''company'', AInt 1, AExn (Raised Exception ''constraint violation'')]]
           @ map (\<lambda>j. Log ERROR ''Error processing''
                         [AStr ''company'', AInt j, AExn (Raised KeyError ''name'')]) [2..49]
           @ [Log INFO ''Created new'' [AVal (PStr ''C'')]]"
    unfolding T_def xs_def by code_simp
  note C = batch_upsert_count [of xs ?db ?env 7]
  from C have c: "fst R = length (filter succeeded (fst G))"
    and d: "fst (snd R) = fst (snd G)"
    and lg: "snd (snd R)
         = concat (map (\<lambda>i. concat (map snd (batch_at T i))
                            @ failure_logs ''company'' i (map fst (batch_at T i)))
                    (batch_starts (length xs)))
           @ [Log INFO ''Successfully processed''
                [AInt (int (fst R)), AInt (int (length xs)), AStr ''company'']]"
    unfolding G_def R_def T_def by (simp_all only: list_all_Cons_iff list_all_Nil_iff prod.case)
  have cnt: "fst R = 2" using c rs by simp
  have logs: "snd (snd R)
         = [Log INFO ''Created new'' [AVal (PStr ''A'')],
            Log ERROR ''Error upserting''
              [AStr ''portfolio_companies'', AExn (Raised Exception ''constraint violation'')]]
           @ replicate 48 (Log ERROR ''Error upserting''
                             [AStr ''portfolio_companies'', AExn (Raised KeyError ''name'')])
           @ [Log ERROR ''Error processing''
                [AStr ''company'', AInt 1, AExn (Raised Exception ''constraint violation'')]]
           @ map (\<lambda>j. Log ERROR ''Error processing''
                         [AStr ''company'', AInt j, AExn (Raised KeyError ''name'')]) [2..49]
           @ [Log INFO ''Created new'' [AVal (PStr ''C'')],
              Log INFO ''Successfully processed'' [AInt 2, AInt 51, AStr ''company'']]"
    unfolding lg len cnt tl by simp
  have mem: "Log ERROR ''Error processing''
           [AStr ''company'', AInt 1, AExn (Raised Exception ''constraint violation'')]
         \<in> set (snd (snd R))"
    unfolding logs by simp
  from len sizes cnt names d mem logs
  have "length xs = 51
     \<and> map (\<lambda>i. length (batch_at xs i)) (batch_starts (length xs)) = [50, 1]
     \<and> fst R = 2
     \<and> map (\<lambda>r. dict_get r ''name'') (tables (fst (snd R)) ''portfolio_companies'')
         = [PStr ''A'', PStr ''C'']
     \<and> Log ERROR ''Error processing''
           [AStr ''company'', AInt 1, AExn (Raised Exception ''constraint violation'')]
         \<in> set (snd (snd R))
     \<and> snd (snd R)
         = [Log INFO ''Created new'' [AVal (PStr ''A'')],
            Log ERROR ''Error upserting''
              [AStr ''portfolio_companies'', AExn (Raised Exception ''constraint violation'')]]
           @ replicate 48 (Log ERROR ''Error upserting''
                             [AStr ''portfolio_companies'', AExn (Raised KeyError ''name'')])
           @ [Log ERROR ''Error processing''
                [AStr ''company'', AInt 1, AExn (Raised Exception ''constraint violation'')]]
           @ map (\<lambda>j. Log ERROR ''Error processing''
                         [AStr ''company'', AInt j, AExn (Raised KeyError ''name'')]) [2..49]
           @ [Log INFO ''Created new'' [AVal (PStr ''C'')],
              Log INFO ''Successfully processed'' [AInt 2, AInt 51, AStr ''company'']]"
    by (simp only: simp_thms)
  then show ?thesis unfolding R_def xs_def Let_def .
qed

subsection \<open>Upsert of a stored record\<close>

lemma map_of_dict_set: "map_of (dict_set d k v) = (map_of d)(k \<mapsto> v)"
  by (simp add: dict_set_def update_conv')

lemma dict_get_dict_set: "dict_get (dict_set d k v) k' = (if k' = k then v else dict_get d k')"
  by (simp add: dict_get_def map_of_dict_set)

lemma keys_dict_set: "fst ` set (dict_set d k v) = insert k (fst ` set d)"
  by (simp add: dict_set_def dom_update [simplified dom_map_of_conv_image_fst])

lemma distinct_dict_set: "distinct (map fst d) \<Longrightarrow> distinct (map fst (dict_set d k v))"
  by (simp add: dict_set_def distinct_update)

lemma map_of_dict_update: "map_of (dict_update d e) = map_of d ++ map_of (rev e)"
  unfolding dict_update_def
proof (induction e arbitrary: d)
  case Nil
  show ?case by simp
next
  case (Cons kv e)
  show ?case
    by (simp add: Cons.IH map_of_dict_set map_add_upd_left Map.map_add_def fun_eq_iff
        split: option.splits)
qed

lemma map_of_rev_distinct:
  "distinct (map fst xs) \<Longrightarrow> map_of (rev xs) = map_of xs"
proof (induction xs)
  case Nil
  show ?case by simp
next
  case (Cons kv xs)
  then have "map_of xs (fst kv) = None" by (simp add: map_of_eq_None_iff)
  with Cons show ?case
    by (cases kv) (auto simp add: fun_eq_iff map_add_def split: option.splits)
qed

lemma dict_get_dict_update:
  assumes "distinct (map fst e)"
  shows "dict_get (dict_update d e) k = (if k \<in> fst ` set e then dict_get e k else dict_get d k)"
proof -
  have r: "map_of (rev e) = map_of e" using assms by (rule map_of_rev_distinct)
  show ?thesis
  proof (cases "map_of e k")
    case None
    then have "k \<notin> fst ` set e" by (simp add: map_of_eq_None_iff)
    with None r show ?thesis by (simp add: dict_get_def map_of_dict_update map_add_def)
  next
    case (Some v)
    then have "k \<in> fst ` set e" by (metis map_of_eq_None_iff option.distinct(1))
    with Some r show ?thesis by (simp add: dict_get_def map_of_dict_update map_add_def)
  qed
qed

text \<open>
  The update branch of the upsert when the hashes agree: two requests (the lookup and the
  update), two clock readings, and the incoming record with its two new timestamps
  written onto every row of the table that has the found row's \<open>id\<close>.
\<close>

lemma same_hash_upsert_record:
  assumes name: "map_of data ''name'' = Some name"
    and found: "filter (\<lambda>r. dict_get r ''site_id'' = PInt site_id \<and> dict_get r ''name'' = name)
                  (tables db t) = old # others"
    and rid: "map_of old ''id'' = Some rid"
    and same: "dict_get data ''content_hash'' = dict_get old ''content_hash''"
    and avail: "\<not> unavailable env (requests db)" "\<not> unavailable env (Suc (requests db))"
    and written: "written = dict_set (dict_set (dict_set data ''site_id'' (PInt site_id))
                     ''updated_at'' (PStr (isoformat (now_utc env (clock_reads db)))))
                     ''last_seen_at'' (PStr (isoformat (now_utc env (Suc (clock_reads db)))))"
    and acc: "\<not> rejects env t written"
  shows "\<exists>v logs. upsert_record env t ct idcol site_id data db =
           (Inr v,
            db\<lparr>tables := (tables db)
                   (t := map (\<lambda>r. if dict_get r ''id'' = rid then dict_update r written else r)
                           (tables db t)),
               requests := requests db + 2,
               clock_reads := clock_reads db + 2\<rparr>,
            logs)"
proof -
  let ?db1 = "db\<lparr>requests := Suc (requests db)\<rparr>"
  let ?db2 = "?db1\<lparr>clock_reads := Suc (clock_reads db)\<rparr>"
  let ?db3 = "?db2\<lparr>clock_reads := Suc (Suc (clock_reads db))\<rparr>"
  let ?rows = "map (\<lambda>r. if dict_get r ''id'' = rid then dict_update r written else r)
                 (tables db t)"
  let ?db4 = "db\<lparr>tables := (tables db)(t := ?rows), requests := requests db + 2,
                 clock_reads := clock_reads db + 2\<rparr>"
  have idx: "dict_index (dict_set data ''site_id'' (PInt site_id)) ''name'' = Inr name"
    using name by (simp add: dict_index_def map_of_dict_set)
  have sel: "db_select env t [(''site_id'', PInt site_id), (''name'', name)] db
               = (Inr (old # others), ?db1)"
    using found avail(1) by (simp add: db_select_def)
  have now1: "utc_now_iso env ?db1 = (isoformat (now_utc env (clock_reads db)), ?db2)"
    by (simp add: utc_now_iso_def utc_now_def)
  have now2: "utc_now_iso env ?db2 = (isoformat (now_utc env (Suc (clock_reads db))), ?db3)"
    by (simp add: utc_now_iso_def utc_now_def)
  have oid: "dict_index old ''id'' = Inr rid" using rid by (simp add: dict_index_def)
  have h: "dict_get (dict_set data ''site_id'' (PInt site_id)) ''content_hash''
             = dict_get old ''content_hash''"
    using same by (simp add: dict_get_dict_set)
  have upd: "db_update env t written rid ?db3
               = (Inr (filter (\<lambda>r. dict_get r ''id'' = rid) ?rows), ?db4)"
    using avail(2) acc by (simp add: db_update_def Let_def)
  show ?thesis
    using idx sel oid h now1 now2 upd
    by (cases "filter (\<lambda>r. dict_get r ''id'' = rid) ?rows")
       (simp_all add: upsert_record_def upsert_try_def Let_def written [symmetric])
qed

text \<open>
  C2 (as the code has it).  For both upserts: when the record is already stored (the
  lookup by site and name finds \<open>old\<close>) with the same content hash, and the store takes
  the two requests, the upsert returns normally and writes \<open>written\<close> onto the stored
  row: the incoming record with \<open>site_id\<close> and with \<open>updated_at\<close> and \<open>last_seen_at\<close>
  set to the two clock readings.  So every field the incoming record carries, and both
  timestamps, are overwritten; a stored field under any other key (\<open>id\<close>, \<open>created_at\<close>,
  \<open>first_seen_at\<close>) keeps its value; and the change table is as before: no change
  record is created.
\<close>

theorem same_hash_upsert:
  assumes which: "(up, t, ct) = (upsert_portfolio_company env, ''portfolio_companies'', ''company_changes'')
                \<or> (up, t, ct) = (upsert_team_member env, ''team_members'', ''member_changes'')"
    and keys: "distinct (map fst data)"
    and name: "map_of data ''name'' = Some name"
    and found: "filter (\<lambda>r. dict_get r ''site_id'' = PInt site_id \<and> dict_get r ''name'' = name)
                  (tables db t) = old # others"
    and rid: "map_of old ''id'' = Some rid"
    and same: "dict_get data ''content_hash'' = dict_get old ''content_hash''"
    and avail: "\<not> unavailable env (requests db)" "\<not> unavailable env (Suc (requests db))"
    and written: "written = dict_set (dict_set (dict_set data ''site_id'' (PInt site_id))
                     ''updated_at'' (PStr (isoformat (now_utc env (clock_reads db)))))
                     ''last_seen_at'' (PStr (isoformat (now_utc env (Suc (clock_reads db)))))"
    and acc: "\<not> rejects env t written"
  shows "(\<exists>v. fst (up site_id data db) = Inr v)
       \<and> tables (fst (snd (up site_id data db))) t
           = map (\<lambda>r. if dict_get r ''id'' = rid then dict_update r written else r) (tables db t)
       \<and> tables (fst (snd (up site_id data db))) ct = tables db ct
       \<and> (\<forall>r k. dict_get (dict_update r written) k
                  = (if k \<in> fst ` set data \<union> {''site_id'', ''updated_at'', ''last_seen_at''}
                     then dict_get written k else dict_get r k))
       \<and> dict_get written ''updated_at'' = PStr (isoformat (now_utc env (clock_reads db)))
       \<and> dict_get written ''last_seen_at''
           = PStr (isoformat (now_utc env (Suc (clock_reads db))))"
proof -
  have dw: "distinct (map fst written)"
    unfolding written using keys by (intro distinct_dict_set)
  have kw: "fst ` set written = fst ` set data \<union> {''site_id'', ''updated_at'', ''last_seen_at''}"
    unfolding written by (auto simp add: keys_dict_set)
  have look: "\<forall>r k. dict_get (dict_update r written) k
                  = (if k \<in> fst ` set data \<union> {''site_id'', ''updated_at'', ''last_seen_at''}
                     then dict_get written k else dict_get r k)"
    using dict_get_dict_update [OF dw] kw by simp
  have ts: "dict_get written ''updated_at'' = PStr (isoformat (now_utc env (clock_reads db)))"
      "dict_get written ''last_seen_at'' = PStr (isoformat (now_utc env (Suc (clock_reads db))))"
    unfolding written by (simp_all add: dict_get_dict_set)
  from which have ne: "ct \<noteq> t" by auto
  from which obtain idcol where up: "up = upsert_record env t ct idcol"
    by (auto simp add: upsert_portfolio_company_def upsert_team_member_def)
  from same_hash_upsert_record [OF name found rid same avail written acc, of ct idcol]
  obtain v logs where "up site_id data db =
           (Inr v,
            db\<lparr>tables := (tables db)
                   (t := map (\<lambda>r. if dict_get r ''id'' = rid then dict_update r written else r)
                           (tables db t)),
               requests := requests db + 2,
               clock_reads := clock_reads db + 2\<rparr>,
            logs)"
    unfolding up by blast
  with ne look ts show ?thesis by simp
qed

text \<open>A team member seen again with the same hash.\<close>

theorem same_hash_upsert_witness:
  "(let env = \<lparr>now_utc = (\<lambda>n. \<lparr>year = 2024, month = 3, day = 15, hour = 10, minute = 30,
                                second = int n, microsecond = 0\<rparr>),
               unavailable = (\<lambda>n. False), rejects = (\<lambda>t d. False)\<rparr>;
        stored = [(''id'', PInt 1), (''name'', PStr ''Ada''), (''title'', PStr ''Partner''),
                  (''content_hash'', PStr ''9f86d081''), (''site_id'', PInt 7),
                  (''created_at'', PStr ''2024-03-01T00:00:00+00:00''),
                  (''first_seen_at'', PStr ''2024-03-01T00:00:00+00:00''),
                  (''last_seen_at'', PStr ''2024-03-01T00:00:00+00:00'')];
        db = \<lparr>tables = (\<lambda>t. [])(''team_members'' := [stored]),
              next_id = 2, requests = 0, clock_reads = 0\<rparr>;
        incoming = [(''name'', PStr ''Ada''), (''title'', PStr ''Partner''),
                    (''content_hash'', PStr ''9f86d081'')];
        db' = fst (snd (upsert_team_member env 7 incoming db))
    in tables db' ''team_members''
         = [[(''id'', PInt 1), (''name'', PStr ''Ada''), (''title'', PStr ''Partner''),
             (''content_hash'', PStr ''9f86d081''), (''site_id'', PInt 7),
             (''created_at'', PStr ''2024-03-01T00:00:00+00:00''),
             (''first_seen_at'', PStr ''2024-03-01T00:00:00+00:00''),
             (''last_seen_at'', PStr ''2024-03-15T10:30:01+00:00''),
             (''updated_at'', PStr ''2024-03-15T10:30:00+00:00'')]]
     \<and> tables db' ''member_changes'' = [])"
proof -
  let ?env = "\<lparr>now_utc = (\<lambda>n. \<lparr>year = 2024, month = 3, day = 15, hour = 10, minute = 30,
                                second = int n, microsecond = 0\<rparr>),
               unavailable = (\<lambda>n. False), rejects = (\<lambda>t d. False)\<rparr>"
  let ?stored = "[(''id'', PInt 1), (''name'', PStr ''Ada''), (''title'', PStr ''Partner''),
                  (''content_hash'', PStr ''9f86d081''), (''site_id'', PInt 7),
                  (''created_at'', PStr ''2024-03-01T00:00:00+00:00''),
                  (''first_seen_at'', PStr ''2024-03-01T00:00:00+00:00''),
                  (''last_seen_at'', PStr ''2024-03-01T00:00:00+00:00'')]"
  let ?db = "\<lparr>tables = (\<lambda>t. [])(''team_members'' := [?stored]),
              next_id = 2, requests = 0, clock_reads = 0\<rparr>"
  let ?incoming = "[(''name'', PStr ''Ada''), (''title'', PStr ''Partner''),
                    (''content_hash'', PStr ''9f86d081'')]"
  let ?written = "dict_set (dict_set (dict_set ?incoming ''site_id'' (PInt 7))
                     ''updated_at'' (PStr (isoformat (now_utc ?env (clock_reads ?db)))))
                     ''last_seen_at'' (PStr (isoformat (now_utc ?env (Suc (clock_reads ?db)))))"
  define D where "D = fst (snd (upsert_team_member ?env 7 ?incoming ?db))"
  have which: "(upsert_team_member ?env, ''team_members'', ''member_changes'')
                 = (upsert_portfolio_company ?env, ''portfolio_companies'', ''company_changes'')
             \<or> (upsert_team_member ?env, ''team_members'', ''member_changes'')
                 = (upsert_team_member ?env, ''team_members'', ''member_changes'')"
    by simp
  have keys: "distinct (map fst ?incoming)" by simp
  have name: "map_of ?incoming ''name'' = Some (PStr ''Ada'')" by simp
  have found: "filter (\<lambda>r. dict_get r ''site_id'' = PInt 7 \<and> dict_get r ''name'' = PStr ''Ada'')
                  (tables ?db ''team_members'') = ?stored # []"
    by (simp add: dict_get_def)
  have rid: "map_of ?stored ''id'' = Some (PInt 1)" by simp
  have same: "dict_get ?incoming ''content_hash'' = dict_get ?stored ''content_hash''"
    by (simp add: dict_get_def)
  have avail: "\<not> unavailable ?env (requests ?db)" "\<not> unavailable ?env (Suc (requests ?db))"
    by simp_all
  have acc: "\<not> rejects ?env ''team_members'' ?written" by simp
  note T = same_hash_upsert [OF which keys name found rid same avail refl acc, folded D_def]
  have merged: "map (\<lambda>r. if dict_get r ''id'' = PInt 1 then dict_update r ?written else r)
                  (tables ?db ''team_members'')
         = [[(''id'', PInt 1), (''name'', PStr ''Ada''), (''title'', PStr ''Partner''),
             (''content_hash'', PStr ''9f86d081''), (''site_id'', PInt 7),
             (''created_at'', PStr ''2024-03-01T00:00:00+00:00''),
             (''first_seen_at'', PStr ''2024-03-01T00:00:00+00:00''),
             (''last_seen_at'', PStr ''2024-03-15T10:30:01+00:00''),
             (''updated_at'', PStr ''2024-03-15T10:30:00+00:00'')]]"
    by code_simp
  have unchanged: "tables ?db ''member_changes'' = []" by simp
  from T merged unchanged
  have "tables D ''team_members''
         = [[(''id'', PInt 1), (''name'', PStr ''Ada''), (''title'', PStr ''Partner''),
             (''content_hash'', PStr ''9f86d081''), (''site_id'', PInt 7),
             (''created_at'', PStr ''2024-03-01T00:00:00+00:00''),
             (''first_seen_at'', PStr ''2024-03-01T00:00:00+00:00''),
             (''last_seen_at'', PStr ''2024-03-15T10:30:01+00:00''),
             (''updated_at'', PStr ''2024-03-15T10:30:00+00:00'')]]
     \<and> tables D ''member_changes'' = []"
    by (simp only:)
  then show ?thesis unfolding D_def Let_def .
qed

text \<open>
  C2 as stated fails on \<open>updated_at\<close>.  A company stored with
  \<open>updated_at = 2024-03-08T00:00:00\<close> is upserted again with the same content hash at
  10:30 on 2024-03-15: the stored \<open>updated_at\<close> becomes the time of the upsert.  No change
  record is created.
\<close>

theorem same_hash_upsert_counterexample:
  "(let env = \<lparr>now_utc = (\<lambda>n. \<lparr>year = 2024, month = 3, day = 15, hour = 10, minute = 30,
                                second = int n, microsecond = 0\<rparr>),
               unavailable = (\<lambda>n. False), rejects = (\<lambda>t d. False)\<rparr>;
        stored = [(''id'', PInt 1), (''name'', PStr ''Acme''), (''sector'', PStr ''Fintech''),
                  (''content_hash'', PStr ''5d41402a''), (''site_id'', PInt 7),
                  (''created_at'', PStr ''2024-03-01T00:00:00+00:00''),
                  (''first_seen_at'', PStr ''2024-03-01T00:00:00+00:00''),
                  (''last_seen_at'', PStr ''2024-03-08T00:00:00+00:00''),
                  (''updated_at'', PStr ''2024-03-08T00:00:00+00:00'')];
        db = \<lparr>tables = (\<lambda>t. [])(''portfolio_companies'' := [stored]),
              next_id = 2, requests = 0, clock_reads = 0\<rparr>;
        incoming = [(''name'', PStr ''Acme''), (''sector'', PStr ''Fintech''),
                    (''content_hash'', PStr ''5d41402a'')];
        db' = fst (snd (upsert_portfolio_company env 7 incoming db))
    in dict_get incoming ''content_hash'' = dict_get stored ''content_hash''
     \<and> map (\<lambda>r. dict_get r ''updated_at'') (tables db ''portfolio_companies'')
         = [PStr ''2024-03-08T00:00:00+00:00'']
     \<and> map (\<lambda>r. dict_get r ''updated_at'') (tables db' ''portfolio_companies'')
         = [PStr ''2024-03-15T10:30:00+00:00'']
     \<and> map (\<lambda>r. dict_get r ''last_seen_at'') (tables db' ''portfolio_companies'')
         = [PStr ''2024-03-15T10:30:01+00:00'']
     \<and> tables db' ''company_changes'' = [])"
  by code_simp


section \<open>Properties of the content hash\<close>

lemma set_sorted_items: "set (sorted_items d) = set d"
  by (simp add: sorted_items_def)

lemma item_of_dict_set: "(k, v) \<in> set (dict_set d k v)"
  by (rule map_of_SomeD) (simp add: map_of_dict_set)

lemma item_kept_dict_set: "(k, v) \<in> set d \<Longrightarrow> k' \<noteq> k \<Longrightarrow> (k, v) \<in> set (dict_set d k' v')"
  by (induction d) (auto simp add: dict_set_def)

lemma company_fields_scraped_at:
  "(''scraped_at'', PStr (isoformat now)) \<in> set (company_fields N base_url now raw_data)"
  by (simp add: company_fields_def Let_def item_kept_dict_set item_of_dict_set)

lemma member_fields_scraped_at:
  "(''scraped_at'', PStr (isoformat now)) \<in> set (member_fields N now raw_data)"
  by (simp add: member_fields_def Let_def item_of_dict_set)

lemma deal_fields_extracted_at:
  "deal_fields N now raw_data pub = Inr (Some c)
     \<Longrightarrow> (''extracted_at'', PStr (isoformat now)) \<in> set c"
  by (auto simp add: deal_fields_def Let_def item_of_dict_set split: if_splits sum.splits prod.splits)

text \<open>
  C1 (what the code does instead).  For every record the cleaner produces, the item list
  that \<^verbatim>\<open>calculate_content_hash\<close> renders and digests contains the volatile timestamp:
  \<open>scraped_at\<close> for companies and team members, \<open>extracted_at\<close> for deals, each set
  to the time of the cleaning just before the hash is taken.  The stored \<open>content_hash\<close>
  is the digest of that list.
\<close>

theorem content_hash_covers_timestamp:
  "(''scraped_at'', PStr (isoformat now)) \<in> set (sorted_items (company_fields N base_url now raw_data))
   \<and> clean_portfolio_company N H base_url now raw_data
       = dict_set (company_fields N base_url now raw_data) ''content_hash''
           (PStr (md5_hexdigest H (render H (sorted_items (company_fields N base_url now raw_data)))))
   \<and> (''scraped_at'', PStr (isoformat now)) \<in> set (sorted_items (member_fields N now raw_data))
   \<and> clean_team_member N H now raw_data
       = dict_set (member_fields N now raw_data) ''content_hash''
           (PStr (md5_hexdigest H (render H (sorted_items (member_fields N now raw_data)))))
   \<and> (case deal_fields N now raw_data pub of
         Inl e \<Rightarrow> clean_deal_data N H now raw_data pub = Inl e
       | Inr None \<Rightarrow> clean_deal_data N H now raw_data pub = Inr None
       | Inr (Some c) \<Rightarrow>
           (''extracted_at'', PStr (isoformat now)) \<in> set (sorted_items c)
           \<and> clean_deal_data N H now raw_data pub
               = Inr (Some (dict_set c ''content_hash''
                   (PStr (md5_hexdigest H (render H (sorted_items c)))))))"
  using deal_fields_extracted_at [of N now raw_data pub]
  by (simp add: set_sorted_items company_fields_scraped_at member_fields_scraped_at
      clean_portfolio_company_def clean_team_member_def clean_deal_data_def
      calculate_content_hash_def Let_def split: sum.splits option.splits)

text \<open>
  So the digested input differs between two cleanings of the same raw record at times
  with different timestamps, and the two hashes differ whenever the digest tells the two
  inputs apart.
\<close>

lemma distinct_company_fields: "distinct (map fst (company_fields N base_url now raw_data))"
  by (simp add: company_fields_def Let_def distinct_dict_set split: prod.splits)

lemma hashed_items_differ:
  assumes "isoformat t1 \<noteq> isoformat t2"
  shows "sorted_items (company_fields N base_url t1 raw_data)
           \<noteq> sorted_items (company_fields N base_url t2 raw_data)"
proof
  assume eq: "sorted_items (company_fields N base_url t1 raw_data)
                = sorted_items (company_fields N base_url t2 raw_data)"
  have "(''scraped_at'', PStr (isoformat t1)) \<in> set (company_fields N base_url t2 raw_data)"
    using company_fields_scraped_at [of t1 N base_url raw_data] eq set_sorted_items
    by metis
  moreover have "(''scraped_at'', PStr (isoformat t2)) \<in> set (company_fields N base_url t2 raw_data)"
    by (rule company_fields_scraped_at)
  ultimately have "PStr (isoformat t1) = PStr (isoformat t2)"
    using distinct_company_fields [of N base_url t2 raw_data]
    by (meson eq_key_imp_eq_value)
  with assms show False by simp
qed

lemma content_hash_changes_with_time:
  assumes "isoformat t1 \<noteq> isoformat t2"
    and "inj_on (\<lambda>items. md5_hexdigest H (render H items))
           {sorted_items (company_fields N base_url t1 raw_data),
            sorted_items (company_fields N base_url t2 raw_data)}"
  shows "dict_get (clean_portfolio_company N H base_url t1 raw_data) ''content_hash''
           \<noteq> dict_get (clean_portfolio_company N H base_url t2 raw_data) ''content_hash''"
  using hashed_items_differ [OF assms(1), of N base_url raw_data] assms(2)
  by (auto simp add: clean_portfolio_company_def calculate_content_hash_def Let_def
      dict_get_dict_set inj_on_def)

section \<open>Properties of the fetch layer\<close>

subsection \<open>HTTP 429\<close>

lemma replies_rate_limit_delay: "http_replies (rate_limit_delay env w) = http_replies w"
  by (simp add: rate_limit_delay_def Let_def asyncio_sleep_def random_random_def split: prod.splits)

lemma breaker_rate_limit_delay:
  "http_circuit_breaker (rate_limit_delay env w) = http_circuit_breaker w"
  by (simp add: rate_limit_delay_def Let_def asyncio_sleep_def random_random_def split: prod.splits)

lemma not_retryable: "\<not> isinstance (RateLimited url) (exceptions requests_policy)"
  by (simp add: isinstance_def requests_policy_def default_policy_def)

lemma counts_for_breaker:
  "isinstance (RateLimited url) (expected_exception (http_circuit_breaker (BaseScraper delay now)))"
  by (simp add: isinstance_def BaseScraper_def CircuitBreaker_def)

text \<open>
  C3 (what the code does instead).  When the HTTP breaker lets the call through and the
  reply is a 429 whose \<^verbatim>\<open>Retry-After\<close> header is absent or a number of seconds, the
  transport sleeps for that duration (60 seconds when the header is absent) and raises
  \<^verbatim>\<open>RateLimitError\<close>.  The breaker counts the failure, but the error is not among the
  exceptions the retry decorator retries: \<^verbatim>\<open>fetch_with_requests\<close> fails with it after one
  request, and the next reply is never asked for.
\<close>

theorem rate_limit_not_retried:
  assumes closed: "state (http_circuit_breaker w) \<noteq> OPEN"
    and expected: "isinstance (RateLimited url) (expected_exception (http_circuit_breaker w))"
    and reply: "http_replies w = Status 429 header body # rest"
    and header: "header = Absent \<or> header = Seconds n"
  shows "fst (fetch_with_requests env url w) = Inl (RateLimited url)
       \<and> http_replies (snd (fetch_with_requests env url w)) = rest
       \<and> request_count (snd (fetch_with_requests env url w)) = Suc (request_count w)
       \<and> sleeps (snd (fetch_with_requests env url w))
           = sleeps (rate_limit_delay env w)
               @ [real_of_int (case header of Seconds n \<Rightarrow> n | _ \<Rightarrow> 60)]
       \<and> failure_count (http_circuit_breaker (snd (fetch_with_requests env url w)))
           = failure_count (http_circuit_breaker w) + 1"
proof -
  let ?w1 = "rate_limit_delay env w"
  let ?secs = "case header of Seconds n \<Rightarrow> n | _ \<Rightarrow> 60"
  let ?w3 = "asyncio_sleep (real_of_int ?secs)
               (write_log (Log WARNING ''Rate limited. Waiting'' [AInt ?secs])
                  (?w1\<lparr>http_replies := rest\<rparr>))"
  have inner: "http_fetch env url w = (Inl (RateLimited url), ?w3)"
    using reply header
    by (auto simp add: http_fetch_def Let_def replies_rate_limit_delay)
  have guarded: "guarded_http_fetch env url w
      = (Inl (RateLimited url),
         ?w3\<lparr>http_circuit_breaker := on_failure (http_circuit_breaker w) (time_now ?w3)\<rparr>)"
    using closed expected inner
    by (simp add: guarded_http_fetch_def breaker_call_def)
  have all: "fetch_with_requests env url w
      = (Inl (RateLimited url),
         ?w3\<lparr>http_circuit_breaker := on_failure (http_circuit_breaker w) (time_now ?w3)\<rparr>)"
    using guarded not_retryable [of url]
    by (simp add: fetch_with_requests_def with_retry_def requests_policy_def default_policy_def
        upt_conv_Cons)
  have rc: "request_count ?w1 = Suc (request_count w)"
    by (simp add: rate_limit_delay_def Let_def asyncio_sleep_def random_random_def
        split: prod.splits)
  show ?thesis
    unfolding all using rc
    by (simp add: asyncio_sleep_def write_log_def on_failure_def Let_def)
qed

text \<open>
  The scenario of the specification: 429 with \<^verbatim>\<open>Retry-After: 5\<close>, then a reply that would
  succeed.  One request is made, 1 second of rate limiting and 5 seconds of
  \<^verbatim>\<open>Retry-After\<close> are slept, and the fetch fails.
\<close>

theorem rate_limit_not_retried_witness:
  "(let env = \<lparr>samples = (\<lambda>n. 1 / 2), netloc = (\<lambda>u. ''example.com''),
               parse_page = (\<lambda>soup url w. (Inr (PStr soup), w))\<rparr>;
        url = ''https://example.com/portfolio'';
        w = (BaseScraper 1 1000)
              \<lparr>http_replies := [Status 429 (Seconds 5) [], Status 200 Absent ''<html></html>'']\<rparr>;
        run = fetch_with_requests env url w
    in fst run = Inl (RateLimited url)
     \<and> http_replies (snd run) = [Status 200 Absent ''<html></html>'']
     \<and> request_count (snd run) = 1
     \<and> sleeps (snd run) = [1, 5]
     \<and> failure_count (http_circuit_breaker (snd run)) = 1)"
proof -
  let ?env = "\<lparr>samples = (\<lambda>n. 1 / 2), netloc = (\<lambda>u. ''example.com''),
               parse_page = (\<lambda>soup url w. (Inr (PStr soup), w))\<rparr>"
  let ?url = "''https://example.com/portfolio''"
  let ?w = "(BaseScraper 1 1000)
              \<lparr>http_replies := [Status 429 (Seconds 5) [], Status 200 Absent ''<html></html>'']\<rparr>"
  define R where "R = fetch_with_requests ?env ?url ?w"
  have closed: "state (http_circuit_breaker ?w) \<noteq> OPEN"
    by (simp add: BaseScraper_def CircuitBreaker_def)
  have expected: "isinstance (RateLimited ?url) (expected_exception (http_circuit_breaker ?w))"
    by (simp add: BaseScraper_def CircuitBreaker_def isinstance_def)
  have reply: "http_replies ?w = Status 429 (Seconds 5) [] # [Status 200 Absent ''<html></html>'']"
    by (simp add: BaseScraper_def)
  have header: "Seconds 5 = Absent \<or> Seconds 5 = Seconds 5" by simp
  have before: "sleeps (rate_limit_delay ?env ?w) = [1]
              \<and> failure_count (http_circuit_breaker ?w) = 0 \<and> request_count ?w = 0"
    by code_simp
  from rate_limit_not_retried [OF closed expected reply header, of ?env, folded R_def] before
  have "fst R = Inl (RateLimited ?url)
     \<and> http_replies (snd R) = [Status 200 Absent ''<html></html>'']
     \<and> request_count (snd R) = 1
     \<and> sleeps (snd R) = [1, 5]
     \<and> failure_count (http_circuit_breaker (snd R)) = 1"
    by simp
  then show ?thesis unfolding R_def Let_def .
qed


subsection \<open>Fallback between the transports\<close>

text \<open>
  The coordinator over any two transports and parser, with the runs of each transport
  tallied: when the primary transport raises, each transport has run exactly once, and
  the outcome is that of the other transport (and of the parser on its soup); on a
  failure there the coordinator raises \<open>ScrapeFailed\<close> with the url and that failure.
\<close>

lemma fallback_once_via:
  fixes with_requests with_playwright :: "string \<Rightarrow> 'w \<Rightarrow> (exn + 's) \<times> 'w"
    and parse :: "'s \<Rightarrow> string \<Rightarrow> 'w \<Rightarrow> (exn + 'r) \<times> 'w"
  assumes primary_fails:
    "(if use_playwright then with_playwright else with_requests) url
       (logger (Log DEBUG (if use_playwright then ''Using Playwright for'' else ''Using requests for'')
                  [AStr url]) w) = (Inl e, w1)"
    and w2: "w2 = logger (Log INFO (if use_playwright then ''Falling back to requests for''
                                     else ''Falling back to Playwright for'') [AStr url])
                    (logger (Log WARNING ''Primary scraping method failed'' [AStr url, AExn e]) w1)"
    and run: "run = scrape_with_fallback_via (tallied_http with_requests)
                      (tallied_browser with_playwright) (tallied_parse parse)
                      (tallied_logger logger) host url (Some use_playwright)
                      \<lparr>base = w, http_runs = 0, browser_runs = 0\<rparr>"
  shows "http_runs (snd run) = 1 \<and> browser_runs (snd run) = 1
       \<and> (case (if use_playwright then with_requests else with_playwright) url w2 of
             (Inl fallback_error, w3) \<Rightarrow>
               fst run = Inl (ScrapeFailed url fallback_error)
               \<and> base (snd run)
                   = logger (Log ERROR ''Both scraping methods failed''
                               [AStr url, AExn fallback_error]) w3
           | (Inr soup, w3) \<Rightarrow>
               (case parse soup url w3 of
                  (Inl fallback_error, w4) \<Rightarrow>
                    fst run = Inl (ScrapeFailed url fallback_error)
                    \<and> base (snd run)
                        = logger (Log ERROR ''Both scraping methods failed''
                                    [AStr url, AExn fallback_error]) w4
                | (Inr result, w4) \<Rightarrow> fst run = Inr result \<and> base (snd run) = w4))"
proof (cases use_playwright)
  case True
  with primary_fails w2 show ?thesis
    unfolding run
    by (simp add: scrape_with_fallback_via_def tallied_http_def tallied_browser_def
        tallied_parse_def tallied_logger_def Let_def split: prod.splits sum.splits)
next
  case False
  with primary_fails w2 show ?thesis
    unfolding run
    by (simp add: scrape_with_fallback_via_def tallied_http_def tallied_browser_def
        tallied_parse_def tallied_logger_def Let_def split: prod.splits sum.splits)
qed

lemma tallies_erased:
  "scrape_with_fallback_via a b p l host url (Some use_pw) (base t)
     = (fst (scrape_with_fallback_via (tallied_http a) (tallied_browser b) (tallied_parse p)
               (tallied_logger l) host url (Some use_pw) t),
        base (snd (scrape_with_fallback_via (tallied_http a) (tallied_browser b) (tallied_parse p)
               (tallied_logger l) host url (Some use_pw) t)))"
proof (cases use_pw)
  case True
  then show ?thesis
    by (simp add: scrape_with_fallback_via_def tallied_http_def tallied_browser_def
        tallied_parse_def tallied_logger_def split: prod.splits sum.splits)
next
  case False
  then show ?thesis
    by (simp add: scrape_with_fallback_via_def tallied_http_def tallied_browser_def
        tallied_parse_def tallied_logger_def split: prod.splits sum.splits)
qed

text \<open>
  C5 (as the code has it).  For \<^verbatim>\<open>scrape_with_fallback\<close> with either transport selected:
  when the selected transport, behind its own retry decorator and circuit breaker, raises
  \<open>e\<close> (whatever \<open>e\<close> is, a circuit-open error included), the primary error is logged as
  a warning and the other transport is run exactly once, behind its own retry decorator
  and breaker.  If that run, or the parsing of its soup, raises \<open>fallback_error\<close>, the
  coordinator logs it and raises one \<^verbatim>\<open>ScrapingError\<close> made of the url and the fallback
  error; the primary error is not an argument of it.  Otherwise the parsed result is
  returned.
\<close>

theorem fallback_once:
  assumes primary_fails:
    "(if use_playwright then fetch_with_playwright env url None else fetch_with_requests env url)
       (write_log (Log DEBUG (if use_playwright then ''Using Playwright for''
                              else ''Using requests for'') [AStr url]) w) = (Inl e, w1)"
    and w2: "w2 = write_log (Log INFO (if use_playwright then ''Falling back to requests for''
                                       else ''Falling back to Playwright for'') [AStr url])
                    (write_log (Log WARNING ''Primary scraping method failed''
                                  [AStr url, AExn e]) w1)"
    and run: "run = scrape_with_fallback_via (tallied_http (fetch_with_requests env))
                      (tallied_browser (\<lambda>url. fetch_with_playwright env url None))
                      (tallied_parse (parse_page env)) (tallied_logger write_log) (netloc env)
                      url (Some use_playwright) \<lparr>base = w, http_runs = 0, browser_runs = 0\<rparr>"
  shows "scrape_with_fallback env url (Some use_playwright) w = (fst run, base (snd run))
       \<and> http_runs (snd run) = 1 \<and> browser_runs (snd run) = 1
       \<and> (case (if use_playwright then fetch_with_requests env url
                 else fetch_with_playwright env url None) w2 of
             (Inl fallback_error, w3) \<Rightarrow>
               fst run = Inl (ScrapeFailed url fallback_error)
               \<and> base (snd run)
                   = write_log (Log ERROR ''Both scraping methods failed''
                                  [AStr url, AExn fallback_error]) w3
           | (Inr soup, w3) \<Rightarrow>
               (case parse_page env soup url w3 of
                  (Inl fallback_error, w4) \<Rightarrow>
                    fst run = Inl (ScrapeFailed url fallback_error)
                    \<and> base (snd run)
                        = write_log (Log ERROR ''Both scraping methods failed''
                                       [AStr url, AExn fallback_error]) w4
                | (Inr result, w4) \<Rightarrow> fst run = Inr result \<and> base (snd run) = w4))"
proof -
  have p: "(if use_playwright then (\<lambda>url. fetch_with_playwright env url None)
            else fetch_with_requests env) url
       (write_log (Log DEBUG (if use_playwright then ''Using Playwright for''
                              else ''Using requests for'') [AStr url]) w) = (Inl e, w1)"
    using primary_fails by (simp split: if_splits)
  have erased: "scrape_with_fallback env url (Some use_playwright) w = (fst run, base (snd run))"
    unfolding run scrape_with_fallback_def
    using tallies_erased [of "fetch_with_requests env" "\<lambda>url. fetch_with_playwright env url None"
        "parse_page env" write_log "netloc env" url use_playwright
        "\<lparr>base = w, http_runs = 0, browser_runs = 0\<rparr>"]
    by simp
  from fallback_once_via [OF p w2 run] erased show ?thesis
    by (cases use_playwright) simp_all
qed

text \<open>
  Three replies 503 exhaust the retries of the HTTP transport; the browser transport
  then succeeds on its first attempt, and its page is the result.
\<close>

theorem fallback_once_witness:
  "(let env = \<lparr>samples = (\<lambda>n. 1 / 2), netloc = (\<lambda>u. ''example.com''),
               parse_page = (\<lambda>soup url w. (Inr (PStr soup), w))\<rparr>;
        url = ''https://example.com/portfolio'';
        w = (BaseScraper 1 1000)
              \<lparr>http_replies := [Status 503 Absent [], Status 503 Absent [], Status 503 Absent []],
               page_replies := [Page None None ''<html>rendered</html>'']\<rparr>;
        tallied = scrape_with_fallback_via (tallied_http (fetch_with_requests env))
                    (tallied_browser (\<lambda>url. fetch_with_playwright env url None))
                    (tallied_parse (parse_page env)) (tallied_logger write_log) (netloc env)
                    url (Some False) \<lparr>base = w, http_runs = 0, browser_runs = 0\<rparr>
    in scrape_with_fallback env url (Some False) w = (fst tallied, base (snd tallied))
     \<and> fst tallied = Inr (PStr ''<html>rendered</html>'')
     \<and> http_runs (snd tallied) = 1 \<and> browser_runs (snd tallied) = 1)"
proof -
  let ?env = "\<lparr>samples = (\<lambda>n. 1 / 2), netloc = (\<lambda>u. ''example.com''),
               parse_page = (\<lambda>soup url w. (Inr (PStr soup), w))\<rparr>"
  let ?url = "''https://example.com/portfolio''"
  let ?w = "(BaseScraper 1 1000)
              \<lparr>http_replies := [Status 503 Absent [], Status 503 Absent [], Status 503 Absent []],
               page_replies := [Page None None ''<html>rendered</html>'']\<rparr>"
  define P where "P = fetch_with_requests ?env ?url
                        (write_log (Log DEBUG ''Using requests for'' [AStr ?url]) ?w)"
  define T where "T = scrape_with_fallback_via (tallied_http (fetch_with_requests ?env))
                    (tallied_browser (\<lambda>url. fetch_with_playwright ?env url None))
                    (tallied_parse (parse_page ?env)) (tallied_logger write_log) (netloc ?env)
                    ?url (Some False) \<lparr>base = ?w, http_runs = 0, browser_runs = 0\<rparr>"
  have "fst P = Inl (RetryExhausted 3 (Some (Raised ClientError ''bad status'')))"
    unfolding P_def by code_simp
  then have primary:
    "(if False then fetch_with_playwright ?env ?url None else fetch_with_requests ?env ?url)
       (write_log (Log DEBUG (if False then ''Using Playwright for'' else ''Using requests for'')
                     [AStr ?url]) ?w)
     = (Inl (RetryExhausted 3 (Some (Raised ClientError ''bad status''))), snd P)"
    unfolding P_def by (simp add: prod_eq_iff)
  have res: "fst T = Inr (PStr ''<html>rendered</html>'')"
    unfolding T_def by code_simp
  note F = fallback_once [OF primary refl T_def]
  from F res
  have "scrape_with_fallback ?env ?url (Some False) ?w = (fst T, base (snd T))
     \<and> fst T = Inr (PStr ''<html>rendered</html>'')
     \<and> http_runs (snd T) = 1 \<and> browser_runs (snd T) = 1"
    by (simp only:)
  then show ?thesis unfolding T_def Let_def .
qed

text \<open>
  C5 as stated fails on the primary error.  The HTTP breaker is OPEN (last failure at
  900, now 1000, cooldown 300), so the primary transport fails fast with the circuit-open
  error; the browser transport fails three times.  The failure raised carries the
  fallback's \<open>RetryExhausted\<close> error and not the circuit-open error, which is only in
  the log.
\<close>

theorem fallback_once_counterexample:
  "(let env = \<lparr>samples = (\<lambda>n. 1 / 2), netloc = (\<lambda>u. ''example.com''),
               parse_page = (\<lambda>soup url w. (Inr (PStr soup), w))\<rparr>;
        url = ''https://example.com/portfolio'';
        w = (BaseScraper 1 1000)
              \<lparr>http_circuit_breaker :=
                 \<lparr>failure_threshold = 5, timeout = 300,
                  expected_exception = [ClientError, TimeoutError, RateLimitError],
                  failure_count = 5, last_failure_time = Some 900, state = OPEN\<rparr>,
               page_replies := replicate 3 (Page (Some (Raised Exception ''net::ERR_ABORTED'')) None [])\<rparr>;
        primary = fetch_with_requests env url (write_log (Log DEBUG ''Using requests for'' [AStr url]) w);
        run = scrape_with_fallback env url None w
    in fst primary = Inl (CircuitOpen (Some 900))
     \<and> fst run = Inl (ScrapeFailed url
                        (RetryExhausted 3 (Some (Raised Exception ''net::ERR_ABORTED''))))
     \<and> carries (RetryExhausted 3 (Some (Raised Exception ''net::ERR_ABORTED'')))
           (ScrapeFailed url (RetryExhausted 3 (Some (Raised Exception ''net::ERR_ABORTED''))))
     \<and> \<not> carries (CircuitOpen (Some 900))
           (ScrapeFailed url (RetryExhausted 3 (Some (Raised Exception ''net::ERR_ABORTED''))))
     \<and> Log WARNING ''Primary scraping method failed'' [AStr url, AExn (CircuitOpen (Some 900))]
         \<in> set (journal (snd run)))"
  by code_simp

end
